theory Spec2Isabelle
  imports Main
begin

section \<open>JavaScript values used by the study planner\<close>

text \<open>
  The schedule arrives as parsed JSON and is read without any check, so a field of a raw
  record is either missing (reading it gives \<open>undefined\<close>), \<open>null\<close>, or a value.
\<close>

datatype 'a js = Undefined | Null | Val 'a

text \<open>
  A number computed by the program: an integer or \<open>NaN\<close>. Integers are unbounded here;
  the program's doubles agree with them below \<open>2 ^ 53\<close>.
\<close>

datatype jsnum = Num int | NaN

text \<open>Truthiness of a string field, as \<open>&&\<close> and \<open>||\<close> test it.\<close>

fun truthy_str :: "string js \<Rightarrow> bool" where
  "truthy_str (Val s) = (s \<noteq> [])"
| "truthy_str _ = False"

text \<open>\<open>ToNumber\<close> of a number field: \<open>undefined\<close> is \<open>NaN\<close>, \<open>null\<close> is \<open>0\<close>.\<close>

fun to_number :: "int js \<Rightarrow> jsnum" where
  "to_number Undefined = NaN"
| "to_number Null = Num 0"
| "to_number (Val n) = Num n"

text \<open>The operators \<open>+\<close> and \<open>-\<close> on numbers.\<close>

fun js_add :: "jsnum \<Rightarrow> jsnum \<Rightarrow> jsnum" where
  "js_add (Num a) (Num b) = Num (a + b)"
| "js_add _ _ = NaN"

fun js_sub :: "jsnum \<Rightarrow> jsnum \<Rightarrow> jsnum" where
  "js_sub (Num a) (Num b) = Num (a - b)"
| "js_sub _ _ = NaN"

text \<open>The remainder operator \<open>%\<close> truncates towards zero: the result has the dividend's sign.\<close>

definition js_rem :: "int \<Rightarrow> int \<Rightarrow> int" where
  "js_rem a b = sgn a * (\<bar>a\<bar> mod \<bar>b\<bar>)"

text \<open>Reading an array element: \<open>undefined\<close> past the end.\<close>

fun nth_opt :: "'a list \<Rightarrow> nat \<Rightarrow> 'a option" where
  "nth_opt [] n = None"
| "nth_opt (x # xs) 0 = Some x"
| "nth_opt (x # xs) (Suc n) = nth_opt xs n"

section \<open>Strings of digits\<close>

definition digit_char :: "nat \<Rightarrow> char" where
  "digit_char d = ''0123456789'' ! d"

definition digit_val :: "char \<Rightarrow> nat option" where
  "digit_val =
     map_of [(CHR ''0'', 0), (CHR ''1'', 1), (CHR ''2'', 2), (CHR ''3'', 3), (CHR ''4'', 4),
             (CHR ''5'', 5), (CHR ''6'', 6), (CHR ''7'', 7), (CHR ''8'', 8), (CHR ''9'', 9)]"

text \<open>\<open>toString\<close> of an integer: decimal digits, with a minus sign when negative.\<close>

function show_nat :: "nat \<Rightarrow> string" where
  "show_nat n = (if n < 10 then [digit_char n] else show_nat (n div 10) @ [digit_char (n mod 10)])"
  by pat_completeness auto
termination
  by (relation "measure id") auto

declare show_nat.simps [simp del]

definition show_int :: "int \<Rightarrow> string" where
  "show_int i = (if i < 0 then CHR ''-'' # show_nat (nat (- i)) else show_nat (nat i))"

text \<open>
  \<open>Number\<close> applied to a string, on the strings this development follows: the empty
  string (which is \<open>0\<close>), a run of decimal digits, and such a run after a minus sign.
  \<open>None\<close> stands for every other string, where JavaScript gives \<open>NaN\<close>, a fraction, or
  reads another literal form; those results are not modelled.
\<close>

fun digits_acc :: "nat \<Rightarrow> string \<Rightarrow> nat option" where
  "digits_acc acc [] = Some acc"
| "digits_acc acc (c # cs) =
     (case digit_val c of None \<Rightarrow> None | Some d \<Rightarrow> digits_acc (acc * 10 + d) cs)"

definition Number :: "string \<Rightarrow> int option" where
  "Number s =
     (case s of
        [] \<Rightarrow> Some 0
      | c # cs \<Rightarrow>
          if c = CHR ''-'' then (if cs = [] then None else map_option (\<lambda>n. - int n) (digits_acc 0 cs))
          else map_option int (digits_acc 0 s))"

text \<open>
  \<open>split\<close> on a one-character separator: the pieces between the separators, always at
  least one piece (so the empty case of the inner \<open>case\<close> never arises).
\<close>

fun split :: "char \<Rightarrow> string \<Rightarrow> string list" where
  "split c [] = [[]]"
| "split c (x # xs) =
     (if x = c then [] # split c xs
      else (case split c xs of w # ws \<Rightarrow> (x # w) # ws | [] \<Rightarrow> [[x]]))"

text \<open>\<open>padStart(2, '0')\<close>.\<close>

definition padStart2 :: "string \<Rightarrow> string" where
  "padStart2 s = replicate (2 - length s) CHR ''0'' @ s"

section \<open>The clock arithmetic: \<open>addMinutes\<close>\<close>

text \<open>
  \<open>TypeError\<close> is what \<open>timeStr.split\<close> throws when \<open>timeStr\<close> is \<open>undefined\<close> or
  \<open>null\<close>. \<open>Unmodelled\<close> is not an error of the program: it marks a time string whose
  hour or minute field is outside the strings \<open>Number\<close> follows above (or is missing), for
  which the program goes on with \<open>NaN\<close> or a fraction.
\<close>

datatype failure = TypeError | Unmodelled

definition addMinutes :: "string js \<Rightarrow> int \<Rightarrow> failure + string" where
  "addMinutes timeStr minutes =
     (case timeStr of
        Val str \<Rightarrow>
          (let parts = split CHR '' '' str;
               time = (case nth_opt parts 0 of Some t \<Rightarrow> t | None \<Rightarrow> []);
               period = nth_opt parts 1;
               fields = map Number (split CHR '':'' time)
           in case (nth_opt fields 0, nth_opt fields 1) of
                (Some (Some hour), Some (Some mn)) \<Rightarrow>
                  (let totalMinutes0 = hour * 60 + mn + minutes;
                       totalMinutes =
                         (if period = Some ''PM'' \<and> hour \<noteq> 12 then totalMinutes0 + 720
                          else totalMinutes0);
                       h = js_rem (totalMinutes div 60) 12;
                       newHour = (if h = 0 then 12 else h);
                       newMin = js_rem totalMinutes 60;
                       newPeriod = (if totalMinutes \<ge> 720 then ''PM'' else ''AM'')
                   in Inr (show_int newHour @ '':'' @ padStart2 (show_int newMin) @ '' '' @ newPeriod))
              | _ \<Rightarrow> Inl Unmodelled)
      | _ \<Rightarrow> Inl TypeError)"

section \<open>The data model\<close>

record MCQ =
  question :: string
  options :: "string list"
  correct :: string

record Session =
  s_type :: string
  s_start_time :: "string js"
  s_end_time :: "string js"
  s_duration :: "int js"

text \<open>A record of the backend's schedule, every field optional.\<close>

record Item =
  i_topic :: "string js"
  i_topic_id :: "int js"
  i_type :: "string js"
  i_start_time :: "string js"
  i_end_time :: "string js"
  i_allocated_time :: "int js"
  i_duration :: "int js"
  i_summary :: "string js"
  i_qna :: "MCQ list js"

text \<open>
  A topic of the study plan, with the values the normalizer really stores: the texts and
  times are copied from the raw record as they are, and the sum \<open>allocated_time\<close> may be
  \<open>NaN\<close>.
\<close>

record Topic =
  topic_id :: int
  topic :: "string js"
  start_time :: "string js"
  end_time :: "string js"
  allocated_time :: jsnum
  completed :: bool
  summary :: "string js"
  qna :: "MCQ list"
  suggested_time :: int
  sessions :: "Session list"

section \<open>The schedule normalizer: \<open>transformedPlan\<close>\<close>

text \<open>The filter \<open>item.topic && item.summary\<close>.\<close>

definition kept :: "Item \<Rightarrow> bool" where
  "kept item = (truthy_str (i_topic item) \<and> truthy_str (i_summary item))"

text \<open>The companion: the first record of the whole schedule with the same id and type \<open>qna\<close>.\<close>

definition is_companion :: "Item \<Rightarrow> Item \<Rightarrow> bool" where
  "is_companion item q = (i_topic_id q = i_topic_id item \<and> i_type q = Val ''qna'')"

definition qnaSession :: "Item list \<Rightarrow> Item \<Rightarrow> Item option" where
  "qnaSession schedule item = find (is_companion item) schedule"

text \<open>\<open>item.allocated_time || 30\<close>, \<open>qnaSession?.duration || 0\<close> and \<open>item.qna || []\<close>.\<close>

definition or30 :: "int js \<Rightarrow> int" where
  "or30 a = (case a of Val n \<Rightarrow> (if n \<noteq> 0 then n else 30) | _ \<Rightarrow> 30)"

definition companion_duration :: "Item option \<Rightarrow> int" where
  "companion_duration c =
     (case c of
        None \<Rightarrow> 0
      | Some q \<Rightarrow> (case i_duration q of Val n \<Rightarrow> (if n \<noteq> 0 then n else 0) | _ \<Rightarrow> 0))"

definition qna_or_empty :: "MCQ list js \<Rightarrow> MCQ list" where
  "qna_or_empty q = (case q of Val l \<Rightarrow> l | _ \<Rightarrow> [])"

text \<open>The body of the \<open>map\<close> callback, for the kept record \<open>item\<close> at position \<open>index\<close>.\<close>

definition toTopic :: "Item list \<Rightarrow> nat \<Rightarrow> Item \<Rightarrow> Topic" where
  "toTopic schedule index item =
     (let c = qnaSession schedule item in
      \<lparr> topic_id = int index + 1,
        topic = i_topic item,
        start_time = i_start_time item,
        end_time =
          (case c of
             Some q \<Rightarrow> (if truthy_str (i_end_time q) then i_end_time q else i_end_time item)
           | None \<Rightarrow> i_end_time item),
        allocated_time = js_add (to_number (i_allocated_time item)) (Num (companion_duration c)),
        completed = False,
        summary = i_summary item,
        qna = qna_or_empty (i_qna item),
        suggested_time = or30 (i_allocated_time item),
        sessions =
          \<lparr> s_type = ''study'',
            s_start_time = i_start_time item,
            s_end_time = i_end_time item,
            s_duration = Val (or30 (i_allocated_time item)) \<rparr>
          # (case c of
               Some q \<Rightarrow>
                 [\<lparr> s_type = ''qna'',
                    s_start_time = i_start_time q,
                    s_end_time = i_end_time q,
                    s_duration = i_duration q \<rparr>]
             | None \<Rightarrow> []) \<rparr>)"

definition transformedPlan :: "Item list \<Rightarrow> Topic list" where
  "transformedPlan schedule =
     map (\<lambda>(index, item). toTopic schedule index item) (enumerate 0 (filter kept schedule))"

section \<open>The time reflow: \<open>updateTopicTiming\<close>\<close>

text \<open>\<open>findIndex\<close>: the first position that satisfies the test, \<open>None\<close> for \<open>-1\<close>.\<close>

fun findIndex :: "('a \<Rightarrow> bool) \<Rightarrow> 'a list \<Rightarrow> nat option" where
  "findIndex P [] = None"
| "findIndex P (x # xs) = (if P x then Some 0 else map_option Suc (findIndex P xs))"

text \<open>
  The \<open>for\<close> loop over the later topics, from position \<open>i\<close>, adding \<open>d\<close> minutes to both
  times of each. An exception of \<open>addMinutes\<close> leaves the loop.
\<close>

function shift_loop :: "nat \<Rightarrow> int \<Rightarrow> Topic list \<Rightarrow> failure + Topic list" where
  "shift_loop i d newPlan =
     (if i < length newPlan then
        (case addMinutes (start_time (newPlan ! i)) d of
           Inl e \<Rightarrow> Inl e
         | Inr s \<Rightarrow>
             (case addMinutes (end_time (newPlan ! i)) d of
                Inl e \<Rightarrow> Inl e
              | Inr e \<Rightarrow>
                  shift_loop (i + 1) d
                    (newPlan[i := (newPlan ! i)\<lparr>start_time := Val s, end_time := Val e\<rparr>])))
      else Inr newPlan)"
  by pat_completeness auto
termination
  by (relation "measure (\<lambda>(i, d, newPlan). length newPlan - i)") auto

declare shift_loop.simps [simp del]

text \<open>
  The state update of \<open>updateTopicTiming\<close>: the new plan computed from the previous one.
  \<open>actualTime\<close> is the integer the caller read with \<open>parseInt\<close> and found positive.
  The test \<open>timeSaved > 0\<close> is false when \<open>timeSaved\<close> is \<open>NaN\<close>.
\<close>

definition updateTopicTiming :: "Topic list \<Rightarrow> int \<Rightarrow> int \<Rightarrow> failure + Topic list" where
  "updateTopicTiming prev topicId actualTime =
     (case findIndex (\<lambda>t. topic_id t = topicId) prev of
        None \<Rightarrow> Inr prev
      | Some topicIndex \<Rightarrow>
          (let timeSaved = js_sub (allocated_time (prev ! topicIndex)) (Num actualTime);
               newPlan = prev[topicIndex :=
                 (prev ! topicIndex)\<lparr>allocated_time := Num actualTime, completed := True\<rparr>]
           in case timeSaved of
                Num saved \<Rightarrow>
                  (if saved > 0 then shift_loop (topicIndex + 1) (- saved) newPlan
                   else Inr newPlan)
              | NaN \<Rightarrow> Inr newPlan))"

section \<open>The quiz evaluation: \<open>evaluateAnswers\<close>\<close>

text \<open>The two stock questions made for a topic name.\<close>

definition generateDefaultQnA :: "string \<Rightarrow> MCQ list" where
  "generateDefaultQnA topicName =
     [\<lparr> question = ''What is the main concept of '' @ topicName @ ''?'',
        options = [''a) Option A'', ''b) Option B'', ''c) Option C'', ''d) Option D''],
        correct = ''a'' \<rparr>,
      \<lparr> question = ''Why is '' @ topicName @ '' important?'',
        options = [''a) Reason 1'', ''b) Reason 2'', ''c) Reason 3'', ''d) All of the above''],
        correct = ''d'' \<rparr>]"

text \<open>One entry of the evaluation's result list.\<close>

record Answer =
  a_question :: string
  a_correct :: string
  a_selected :: "string option"
  isCorrect :: bool

text \<open>
  The \<open>map\<close> over the questions, which also counts the score: \<open>index\<close> is the position of
  the next question and \<open>score\<close> the count so far.
\<close>

fun mark :: "(nat \<rightharpoonup> string) \<Rightarrow> nat \<Rightarrow> nat \<Rightarrow> MCQ list \<Rightarrow> nat \<times> Answer list" where
  "mark selectedAnswers index score [] = (score, [])"
| "mark selectedAnswers index score (q # qs) =
     (let ok = (selectedAnswers index = Some (correct q));
          r = \<lparr> a_question = question q, a_correct = correct q,
                a_selected = selectedAnswers index, isCorrect = ok \<rparr>;
          (final, rs) = mark selectedAnswers (Suc index) (if ok then score + 1 else score) qs
      in (final, r # rs))"

text \<open>Nothing is evaluated when no topic is selected; otherwise the score and the answers.\<close>

definition evaluateAnswers :: "Topic option \<Rightarrow> (nat \<rightharpoonup> string) \<Rightarrow> (nat \<times> Answer list) option" where
  "evaluateAnswers selectedTopicForQnA selectedAnswers =
     (case selectedTopicForQnA of
        None \<Rightarrow> None
      | Some t \<Rightarrow> Some (mark selectedAnswers 0 0 (qna t)))"

section \<open>Predicates and example data for the properties\<close>

text \<open>
  A time on which \<open>addMinutes\<close> returns a string in this development: it is a string, and
  its hour and minute fields are read as integers.
\<close>

definition clock_ok :: "string js \<Rightarrow> bool" where
  "clock_ok t = (\<not> isl (addMinutes t 0))"

definition times_ok :: "Topic \<Rightarrow> bool" where
  "times_ok t = (clock_ok (start_time t) \<and> clock_ok (end_time t))"

text \<open>
  The three steps of \<open>addMinutes\<close> on a string, named for the proofs: reading the hour,
  the minutes and the period; the total; and the string written for a total.
\<close>

definition clock_fields :: "string \<Rightarrow> (int \<times> int \<times> string option) option" where
  "clock_fields str =
     (let parts = split CHR '' '' str;
          time = (case nth_opt parts 0 of Some t \<Rightarrow> t | None \<Rightarrow> []);
          fields = map Number (split CHR '':'' time)
      in case (nth_opt fields 0, nth_opt fields 1) of
           (Some (Some hour), Some (Some mn)) \<Rightarrow> Some (hour, mn, nth_opt parts 1)
         | _ \<Rightarrow> None)"

definition clock_total :: "int \<Rightarrow> int \<Rightarrow> string option \<Rightarrow> int \<Rightarrow> int" where
  "clock_total hour mn period minutes =
     (if period = Some ''PM'' \<and> hour \<noteq> 12 then hour * 60 + mn + minutes + 720
      else hour * 60 + mn + minutes)"

definition clock_render :: "int \<Rightarrow> string" where
  "clock_render totalMinutes =
     show_int (if js_rem (totalMinutes div 60) 12 = 0 then 12 else js_rem (totalMinutes div 60) 12)
     @ '':'' @ padStart2 (show_int (js_rem totalMinutes 60)) @ '' ''
     @ (if totalMinutes \<ge> 720 then ''PM'' else ''AM'')"

text \<open>
  The clock string \<open>H:MM AM|PM\<close> of an hour, a minute and a period, with the minute
  written as its tens digit and its units digit; the valid ones (hour 1 to 12, minute 0 to
  59); and the minutes since midnight that such a time denotes on a 12-hour clock, where
  12 AM is the hour after midnight.
\<close>

definition two_digits :: "int \<Rightarrow> string" where
  "two_digits m = [digit_char (nat (m div 10)), digit_char (nat (m mod 10))]"

definition clock_string :: "int \<Rightarrow> int \<Rightarrow> string \<Rightarrow> string" where
  "clock_string h m p = show_int h @ '':'' @ two_digits m @ '' '' @ p"

definition valid_clock :: "int \<Rightarrow> int \<Rightarrow> string \<Rightarrow> bool" where
  "valid_clock h m p = (1 \<le> h \<and> h \<le> 12 \<and> 0 \<le> m \<and> m < 60 \<and> (p = ''AM'' \<or> p = ''PM''))"

definition minutes_of_day :: "int \<Rightarrow> int \<Rightarrow> string \<Rightarrow> int" where
  "minutes_of_day h m p = (h mod 12) * 60 + m + (if p = ''PM'' then 720 else 0)"

text \<open>The plan of three topics of 30 minutes each, from 9:00 AM.\<close>

definition example_topic :: "int \<Rightarrow> string \<Rightarrow> string \<Rightarrow> Topic" where
  "example_topic n s e =
     \<lparr> topic_id = n, topic = Val ''Topic'', start_time = Val s, end_time = Val e,
       allocated_time = Num 30, completed = False, summary = Val ''Summary'', qna = [],
       suggested_time = 30,
       sessions = [\<lparr> s_type = ''study'', s_start_time = Val s, s_end_time = Val e,
                    s_duration = Val 30 \<rparr>] \<rparr>"

definition example_plan :: "Topic list" where
  "example_plan =
     [example_topic 1 ''9:00 AM'' ''9:30 AM'',
      example_topic 2 ''9:30 AM'' ''10:00 AM'',
      example_topic 3 ''10:00 AM'' ''10:30 AM'']"

text \<open>A plan of three topics of 30 minutes each that starts at midnight.\<close>

definition midnight_plan :: "Topic list" where
  "midnight_plan =
     [example_topic 1 ''12:00 AM'' ''12:30 AM'',
      example_topic 2 ''12:30 AM'' ''1:00 AM'',
      example_topic 3 ''1:00 AM'' ''1:30 AM'']"

text \<open>
  The specification's wording of the filter: topic name and summary both present and
  non-empty.
\<close>

definition qualifies :: "Item \<Rightarrow> bool" where
  "qualifies item =
     (case (i_topic item, i_summary item) of
        (Val t, Val s) \<Rightarrow> t \<noteq> [] \<and> s \<noteq> []
      | _ \<Rightarrow> False)"

text \<open>
  \<open>sessions[0].duration + sessions[1].duration\<close>, the second only when present, with
  the addition of the program.
\<close>

definition session_total :: "Session list \<Rightarrow> jsnum" where
  "session_total ss =
     (case ss of
        [a] \<Rightarrow> to_number (s_duration a)
      | [a, b] \<Rightarrow> js_add (to_number (s_duration a)) (to_number (s_duration b))
      | _ \<Rightarrow> NaN)"

text \<open>Example records and schedules.\<close>

definition study_item :: "int \<Rightarrow> string \<Rightarrow> string \<Rightarrow> int js \<Rightarrow> Item" where
  "study_item k s e a =
     \<lparr> i_topic = Val ''Algebra'', i_topic_id = Val k, i_type = Val ''study'',
       i_start_time = Val s, i_end_time = Val e, i_allocated_time = a,
       i_duration = Undefined, i_summary = Val ''Groups and rings'', i_qna = Undefined \<rparr>"

definition qna_item :: "int \<Rightarrow> string \<Rightarrow> string js \<Rightarrow> int js \<Rightarrow> Item" where
  "qna_item k s e d =
     \<lparr> i_topic = Undefined, i_topic_id = Val k, i_type = Val ''qna'',
       i_start_time = Val s, i_end_time = e, i_allocated_time = Undefined,
       i_duration = d, i_summary = Undefined, i_qna = Undefined \<rparr>"

definition alone_schedule :: "Item list" where
  "alone_schedule = [study_item 1 ''9:00 AM'' ''9:30 AM'' (Val 30)]"

definition paired_schedule :: "Item list" where
  "paired_schedule =
     [study_item 1 ''9:00 AM'' ''9:30 AM'' (Val 30),
      qna_item 1 ''9:30 AM'' (Val ''9:40 AM'') (Val 10)]"

definition open_ended_schedule :: "Item list" where
  "open_ended_schedule =
     [study_item 1 ''9:00 AM'' ''9:30 AM'' (Val 30),
      qna_item 1 ''9:30 AM'' Undefined (Val 10)]"

definition unallocated_schedule :: "Item list" where
  "unallocated_schedule = [study_item 1 ''9:00 AM'' ''9:30 AM'' Undefined]"

definition unallocated_paired_schedule :: "Item list" where
  "unallocated_paired_schedule =
     [study_item 1 ''9:00 AM'' ''9:30 AM'' Undefined,
      qna_item 1 ''9:30 AM'' (Val ''9:40 AM'') (Val 10)]"

definition null_allocated_schedule :: "Item list" where
  "null_allocated_schedule =
     [study_item 1 ''9:00 AM'' ''9:30 AM'' Null,
      qna_item 1 ''9:30 AM'' (Val ''9:40 AM'') (Val 10)]"

text \<open>An example quiz, with one of its two questions answered.\<close>

definition quiz_topic :: Topic where
  "quiz_topic = (example_topic 1 ''9:00 AM'' ''9:30 AM'')\<lparr>qna := generateDefaultQnA ''Algebra''\<rparr>"

definition one_answer :: "nat \<rightharpoonup> string" where
  "one_answer = [0 \<mapsto> ''a'']"

section \<open>Facts about the clock arithmetic\<close>

lemma show_nat_1: "n < 10 \<Longrightarrow> show_nat n = [digit_char n]"
  by (subst show_nat.simps) simp

lemma show_nat_2: "10 \<le> n \<Longrightarrow> n < 100 \<Longrightarrow> show_nat n = [digit_char (n div 10), digit_char (n mod 10)]"
  by (subst show_nat.simps) (simp add: show_nat_1)

lemma addMinutes_fields:
  "addMinutes (Val str) m =
     (case clock_fields str of
        None \<Rightarrow> Inl Unmodelled
      | Some (hour, mn, period) \<Rightarrow> Inr (clock_render (clock_total hour mn period m)))"
proof -
  define parts where "parts = split CHR '' '' str"
  define fields where
    "fields = map Number (split CHR '':'' (case nth_opt parts 0 of Some t \<Rightarrow> t | None \<Rightarrow> []))"
  have a: "addMinutes (Val str) m =
      (case (nth_opt fields 0, nth_opt fields 1) of
         (Some (Some hour), Some (Some mn)) \<Rightarrow>
           Inr (clock_render (clock_total hour mn (nth_opt parts 1) m))
       | _ \<Rightarrow> Inl Unmodelled)"
    unfolding addMinutes_def clock_total_def clock_render_def Let_def js.case parts_def fields_def
    by (cases "nth_opt fields 0"; cases "nth_opt fields 1") (simp_all only: if_distrib cong: if_cong)
  have c: "clock_fields str =
      (case (nth_opt fields 0, nth_opt fields 1) of
         (Some (Some hour), Some (Some mn)) \<Rightarrow> Some (hour, mn, nth_opt parts 1)
       | _ \<Rightarrow> None)"
    unfolding clock_fields_def Let_def parts_def fields_def by (rule refl)
  show ?thesis
    unfolding a c
    by (cases "nth_opt fields 0"; cases "nth_opt fields 1") (auto split: option.splits)
qed

lemma addMinutes_at:
  "clock_fields str = Some (hour, mn, period) \<Longrightarrow>
   addMinutes (Val str) m = Inr (clock_render (clock_total hour mn period m))"
  by (simp add: addMinutes_fields)

lemma clock_ok_fields: "clock_ok (Val str) = (clock_fields str \<noteq> None)"
  by (simp add: clock_ok_def addMinutes_fields split: option.splits)

lemmas fields_eval = clock_fields_def Number_def digit_val_def

lemmas render_eval = clock_total_def clock_render_def js_rem_def show_int_def padStart2_def
  digit_char_def show_nat_1 show_nat_2

lemma fields_900: "clock_fields ''9:00 AM'' = Some (9, 0, Some ''AM'')"
  by (simp add: fields_eval)

lemma fields_930: "clock_fields ''9:30 AM'' = Some (9, 30, Some ''AM'')"
  by (simp add: fields_eval)

lemma fields_1000: "clock_fields ''10:00 AM'' = Some (10, 0, Some ''AM'')"
  by (simp add: fields_eval)

lemma fields_1030: "clock_fields ''10:30 AM'' = Some (10, 30, Some ''AM'')"
  by (simp add: fields_eval)

lemma digit_char_cases:
  assumes "d < 10"
  shows "digit_val (digit_char d) = Some d" and "digit_char d \<noteq> CHR '' ''"
    and "digit_char d \<noteq> CHR '':''" and "digit_char d \<noteq> CHR ''-''"
proof -
  from assms have "d = 0 \<or> d = 1 \<or> d = 2 \<or> d = 3 \<or> d = 4 \<or> d = 5 \<or> d = 6 \<or> d = 7 \<or> d = 8 \<or> d = 9"
    by arith
  then show "digit_val (digit_char d) = Some d" and "digit_char d \<noteq> CHR '' ''"
    and "digit_char d \<noteq> CHR '':''" and "digit_char d \<noteq> CHR ''-''"
    by (auto simp: digit_val_def digit_char_def)
qed

lemma show_nat_chars: "c \<in> set (show_nat n) \<Longrightarrow> \<exists>d<10. c = digit_char d"
proof (induction n rule: show_nat.induct)
  case (1 n)
  show ?case
  proof (cases "n < 10")
    case True
    with "1.prems" show ?thesis by (subst (asm) show_nat.simps) auto
  next
    case False
    with "1.prems" have "c \<in> set (show_nat (n div 10)) \<or> c = digit_char (n mod 10)"
      by (subst (asm) show_nat.simps) auto
    with "1.IH" False show ?thesis
      by (metis mod_less_divisor zero_less_numeral)
  qed
qed

lemma show_nat_not_empty: "show_nat n \<noteq> []"
  by (subst show_nat.simps) simp

lemma show_nat_no_sep:
  "CHR '' '' \<notin> set (show_nat n)" "CHR '':'' \<notin> set (show_nat n)" "CHR ''-'' \<notin> set (show_nat n)"
proof -
  have no: "c \<notin> set (show_nat n)"
    if "\<And>d. d < 10 \<Longrightarrow> digit_char d \<noteq> c" for c
  proof
    assume "c \<in> set (show_nat n)"
    then obtain d where "d < 10" "c = digit_char d"
      using show_nat_chars by blast
    with that [of d] show False by simp
  qed
  show "CHR '' '' \<notin> set (show_nat n)"
    by (rule no) (rule digit_char_cases(2))
  show "CHR '':'' \<notin> set (show_nat n)"
    by (rule no) (rule digit_char_cases(3))
  show "CHR ''-'' \<notin> set (show_nat n)"
    by (rule no) (rule digit_char_cases(4))
qed

lemma digits_acc_append:
  "digits_acc acc (xs @ ys) =
     (case digits_acc acc xs of None \<Rightarrow> None | Some a \<Rightarrow> digits_acc a ys)"
  by (induction xs arbitrary: acc) (simp_all split: option.splits)

lemma digits_acc_show_nat: "digits_acc 0 (show_nat n) = Some n"
proof (induction n rule: show_nat.induct)
  case (1 n)
  show ?case
  proof (cases "n < 10")
    case True
    then show ?thesis
      by (subst show_nat.simps) (simp add: digit_char_cases(1))
  next
    case False
    with "1.IH" have "digits_acc 0 (show_nat (n div 10)) = Some (n div 10)" by simp
    with False show ?thesis
      by (subst show_nat.simps) (simp add: digits_acc_append digit_char_cases(1))
  qed
qed

lemma digits_acc_zeros: "digits_acc 0 (replicate k CHR ''0'' @ s) = digits_acc 0 s"
  by (induction k) (simp_all add: digit_val_def)

lemma Number_digits:
  assumes "s \<noteq> []" and "CHR ''-'' \<notin> set s"
  shows "Number s = map_option int (digits_acc 0 s)"
  using assms by (cases s) (auto simp: Number_def)

lemma Number_show_nat: "Number (show_nat n) = Some (int n)"
  by (simp add: Number_digits show_nat_not_empty show_nat_no_sep digits_acc_show_nat)

lemma Number_padded: "Number (padStart2 (show_nat n)) = Some (int n)"
proof -
  have "padStart2 (show_nat n) \<noteq> []"
    by (simp add: padStart2_def show_nat_not_empty)
  moreover have "CHR ''-'' \<notin> set (padStart2 (show_nat n))"
    by (auto simp: padStart2_def show_nat_no_sep)
  ultimately show ?thesis
    by (simp add: Number_digits) (simp add: padStart2_def digits_acc_zeros digits_acc_show_nat)
qed

lemma split_none: "c \<notin> set xs \<Longrightarrow> split c xs = [xs]"
  by (induction xs) auto

lemma split_first: "c \<notin> set xs \<Longrightarrow> split c (xs @ c # ys) = xs # split c ys"
  by (induction xs) auto

lemma two_digits_padded:
  assumes "0 \<le> m" and "m < 100"
  shows "padStart2 (show_int m) = two_digits m"
proof (cases "m < 10")
  case True
  with assms have "nat m < 10" and "m div 10 = 0" and "m mod 10 = m"
    by simp_all
  with assms show ?thesis
    by (simp add: show_int_def show_nat_1 padStart2_def two_digits_def digit_char_def)
next
  case False
  with assms have n: "10 \<le> nat m" "nat m < 100"
    by simp_all
  from assms have "nat (m div 10) = nat m div 10" and "nat (m mod 10) = nat m mod 10"
    by (simp_all add: nat_div_distrib nat_mod_distrib)
  with assms show ?thesis
    by (simp add: show_int_def show_nat_2 [OF n] padStart2_def two_digits_def)
qed

lemma clock_string_padded:
  assumes "0 \<le> m" and "m < 100"
  shows "clock_string h m p = show_int h @ '':'' @ padStart2 (show_int m) @ '' '' @ p"
  using assms by (simp add: clock_string_def two_digits_padded)

lemma clock_fields_clock_string:
  assumes "0 \<le> h" and "0 \<le> m" and "m < 100" and "CHR '' '' \<notin> set p"
  shows "clock_fields (clock_string h m p) = Some (h, m, Some p)"
proof -
  let ?H = "show_nat (nat h)" and ?M = "padStart2 (show_nat (nat m))"
  have str: "clock_string h m p = (?H @ '':'' @ ?M) @ CHR '' '' # p"
    using assms by (simp add: clock_string_padded show_int_def)
  have nosp: "CHR '' '' \<notin> set (?H @ '':'' @ ?M)"
    by (auto simp: padStart2_def show_nat_no_sep)
  have parts: "split CHR '' '' (clock_string h m p) = [?H @ '':'' @ ?M, p]"
    unfolding str using split_first [OF nosp, of p] split_none [OF assms(4)] by simp
  have "CHR '':'' \<notin> set ?M"
    by (auto simp: padStart2_def show_nat_no_sep)
  then have fields: "split CHR '':'' (?H @ '':'' @ ?M) = [?H, ?M]"
    using split_first [of "CHR '':''" ?H ?M] split_none [of "CHR '':''" ?M]
    by (simp add: show_nat_no_sep)
  have nums: "map Number [?H, ?M] = [Some h, Some m]"
    using assms by (simp add: Number_show_nat Number_padded)
  have "clock_fields (clock_string h m p) =
      (case (nth_opt (map Number [?H, ?M]) 0, nth_opt (map Number [?H, ?M]) 1) of
         (Some (Some hour), Some (Some mn)) \<Rightarrow> Some (hour, mn, nth_opt [?H @ '':'' @ ?M, p] 1)
       | _ \<Rightarrow> None)"
    unfolding clock_fields_def Let_def parts by (simp only: nth_opt.simps option.case fields)
  also have "\<dots> = Some (h, m, Some p)"
    unfolding nums by simp
  finally show ?thesis .
qed

lemma js_rem_nonneg: "0 \<le> a \<Longrightarrow> 0 < b \<Longrightarrow> js_rem a b = a mod b"
  by (cases "a = 0") (simp_all add: js_rem_def)

lemma clock_render_string:
  assumes "0 \<le> T"
  shows "clock_render T =
    clock_string (if (T div 60) mod 12 = 0 then 12 else (T div 60) mod 12) (T mod 60)
      (if T \<ge> 720 then ''PM'' else ''AM'')"
proof -
  from assms have "0 \<le> T div 60" by simp
  then have h: "js_rem (T div 60) 12 = (T div 60) mod 12"
    by (simp add: js_rem_nonneg)
  from assms have m: "js_rem T 60 = T mod 60"
    by (simp add: js_rem_nonneg)
  have "0 \<le> T mod 60" and "T mod 60 < 100"
    using pos_mod_bound [of 60 T] by simp_all
  then show ?thesis
    by (simp add: clock_render_def clock_string_padded h m)
qed

lemma clock_total_valid:
  assumes "valid_clock h m p" and "\<not> (h = 12 \<and> p = ''AM'')"
  shows "clock_total h m (Some p) d = minutes_of_day h m p + d"
proof (cases "h = 12")
  case True
  with assms have "p = ''PM''" by (auto simp: valid_clock_def)
  with True show ?thesis by (simp add: clock_total_def minutes_of_day_def)
next
  case False
  with assms have "h mod 12 = h" by (simp add: valid_clock_def)
  with False assms show ?thesis
    by (auto simp: clock_total_def minutes_of_day_def valid_clock_def)
qed

lemma minutes_of_day_range:
  assumes "valid_clock h m p" and "\<not> (h = 12 \<and> p = ''AM'')"
  shows "60 \<le> minutes_of_day h m p" and "minutes_of_day h m p < 1440"
proof -
  from assms have "h = 12 \<and> p = ''PM'' \<or> (1 \<le> h \<and> h \<le> 11)"
    by (auto simp: valid_clock_def)
  then show "60 \<le> minutes_of_day h m p" and "minutes_of_day h m p < 1440"
    using assms(1) by (auto simp: minutes_of_day_def valid_clock_def)
qed

lemma rendered_fields:
  assumes "0 \<le> T" and "T < 1440"
  defines "h \<equiv> (if (T div 60) mod 12 = 0 then 12 else (T div 60) mod 12)"
    and "m \<equiv> T mod 60" and "p \<equiv> (if T \<ge> 720 then ''PM'' else ''AM'')"
  shows "valid_clock h m p" and "minutes_of_day h m p = T"
    and "60 \<le> T \<Longrightarrow> \<not> (h = 12 \<and> p = ''AM'')"
proof -
  have q: "0 \<le> T div 60" "T div 60 \<le> 23" using assms(1,2) by simp_all
  have T: "T = (T div 60) * 60 + T mod 60" by simp
  have "0 \<le> (T div 60) mod 12" and "(T div 60) mod 12 < 12"
    by simp_all
  then have hr: "1 \<le> h \<and> h \<le> 12" unfolding h_def by auto
  show "valid_clock h m p"
    using hr by (simp add: valid_clock_def m_def p_def)
  show "\<not> (h = 12 \<and> p = ''AM'')" if "60 \<le> T"
  proof
    assume a: "h = 12 \<and> p = ''AM''"
    then have "T < 720" by (simp add: p_def split: if_splits)
    then have "T div 60 \<le> 11" by simp
    moreover from that have "1 \<le> T div 60" by simp
    ultimately have "(T div 60) mod 12 = T div 60" by simp
    with a \<open>1 \<le> T div 60\<close> \<open>T div 60 \<le> 11\<close> show False
      by (simp add: h_def split: if_splits)
  qed
  show "minutes_of_day h m p = T"
  proof (cases "T \<ge> 720")
    case True
    then have "12 \<le> T div 60" by simp
    with q have "(T div 60 - 12) mod 12 = T div 60 - 12"
      by (intro mod_pos_pos_trivial) simp_all
    then have "(T div 60) mod 12 = T div 60 - 12"
      by simp
    then have "h mod 12 = T div 60 - 12"
      by (auto simp: h_def)
    with True T show ?thesis
      by (simp add: minutes_of_day_def m_def p_def)
  next
    case False
    then have "T div 60 \<le> 11" by simp
    with q have "(T div 60) mod 12 = T div 60" by simp
    then have "h mod 12 = T div 60" by (auto simp: h_def)
    with False T show ?thesis
      by (simp add: minutes_of_day_def m_def p_def)
  qed
qed

lemma clock_render_minutes_of_day:
  assumes "valid_clock h m p" and "\<not> (h = 12 \<and> p = ''AM'')"
  shows "clock_render (minutes_of_day h m p) = clock_string h m p"
proof -
  let ?T = "minutes_of_day h m p"
  from assms(1) have m: "0 \<le> m" "m < 60" and h: "1 \<le> h" "h \<le> 12"
    and p: "p = ''AM'' \<or> p = ''PM''"
    by (simp_all add: valid_clock_def)
  have T0: "0 \<le> ?T" using minutes_of_day_range(1) [OF assms] by simp
  have split60: "(x * 60 + m + k * 60) div 60 = x + k \<and> (x * 60 + m + k * 60) mod 60 = m"
    for x k :: int
  proof -
    have "x * 60 + m + k * 60 = (x + k) * 60 + m"
      by (simp add: algebra_simps)
    moreover have "((x + k) * 60 + m) div 60 = (x + k) + m div 60"
      using div_mult_self3 [of 60 "x + k" m] by simp
    moreover have "((x + k) * 60 + m) mod 60 = m mod 60"
      using mod_mult_self3 [of "x + k" 60 m] by simp
    ultimately show ?thesis
      using m by simp
  qed
  have dm: "?T div 60 = h mod 12 + (if p = ''PM'' then 12 else 0) \<and> ?T mod 60 = m"
    using split60 [of "h mod 12" 12] split60 [of "h mod 12" 0]
    by (simp add: minutes_of_day_def)
  have hh: "(if (?T div 60) mod 12 = 0 then 12 else (?T div 60) mod 12) = h"
    using h dm by (cases "h = 12") auto
  have pp: "(if ?T \<ge> 720 then ''PM'' else ''AM'') = p"
  proof (cases "p = ''PM''")
    case True
    with m show ?thesis by (simp add: minutes_of_day_def)
  next
    case False
    with p assms(2) h have "p = ''AM''" "h mod 12 = h" "h \<le> 11" by auto
    with m show ?thesis by (simp add: minutes_of_day_def)
  qed
  from dm have mm: "?T mod 60 = m" by simp
  show ?thesis
    unfolding clock_render_string [OF T0] hh pp mm by (rule refl)
qed

lemma addMinutes_clock_string:
  assumes "valid_clock h m p" and "\<not> (h = 12 \<and> p = ''AM'')"
  shows "addMinutes (Val (clock_string h m p)) d = Inr (clock_render (minutes_of_day h m p + d))"
proof -
  from assms(1) have "0 \<le> h" "0 \<le> m" "m < 100" "CHR '' '' \<notin> set p"
    by (auto simp: valid_clock_def)
  then have "clock_fields (clock_string h m p) = Some (h, m, Some p)"
    by (rule clock_fields_clock_string)
  from addMinutes_at [OF this, of d] clock_total_valid [OF assms, of d]
  show ?thesis by simp
qed

lemma fields_1230_am: "clock_fields ''12:30 AM'' = Some (12, 30, Some ''AM'')"
  by (simp add: fields_eval)

lemma fields_1200_am: "clock_fields ''12:00 AM'' = Some (12, 0, Some ''AM'')"
  by (simp add: fields_eval)

lemma fields_100_am: "clock_fields ''1:00 AM'' = Some (1, 0, Some ''AM'')"
  by (simp add: fields_eval)

lemma fields_130_am: "clock_fields ''1:30 AM'' = Some (1, 30, Some ''AM'')"
  by (simp add: fields_eval)

lemma fields_1220_pm: "clock_fields ''12:20 PM'' = Some (12, 20, Some ''PM'')"
  by (simp add: fields_eval)

section \<open>Facts about the reflow loop\<close>

lemma addMinutes_isl: "isl (addMinutes t d) = isl (addMinutes t 0)"
  by (simp add: addMinutes_def Let_def split: js.splits option.splits prod.splits)

lemma clock_ok_Inr: "clock_ok t \<Longrightarrow> \<exists>r. addMinutes t d = Inr r"
  using addMinutes_isl [of t d] by (cases "addMinutes t d") (simp_all add: clock_ok_def)

lemma findIndex_Some:
  "findIndex P xs = Some k \<Longrightarrow> k < length xs \<and> P (xs ! k) \<and> (\<forall>i<k. \<not> P (xs ! i))"
proof (induction xs arbitrary: k)
  case Nil
  then show ?case by simp
next
  case (Cons x xs)
  show ?case
  proof (cases "P x")
    case True
    with Cons.prems show ?thesis by simp
  next
    case False
    with Cons.prems obtain j where j: "findIndex P xs = Some j" "k = Suc j"
      by auto
    from Cons.IH [OF j(1)] False j(2) show ?thesis
      by (auto simp: nth_Cons split: nat.splits)
  qed
qed

lemma findIndex_None: "(findIndex P xs = None) = (\<forall>x\<in>set xs. \<not> P x)"
  by (induction xs) auto

lemma shift_loop_length: "shift_loop i d p = Inr p' \<Longrightarrow> length p' = length p"
proof (induction i d p rule: shift_loop.induct)
  case (1 i d p)
  show ?case
  proof (cases "i < length p")
    case True
    with "1.prems" obtain s e where
      s: "addMinutes (start_time (p ! i)) d = Inr s" and
      e: "addMinutes (end_time (p ! i)) d = Inr e" and
      r: "shift_loop (i + 1) d (p[i := (p ! i)\<lparr>start_time := Val s, end_time := Val e\<rparr>]) = Inr p'"
      by (subst (asm) shift_loop.simps) (auto split: sum.splits)
    from "1.IH" [OF True s e r] show ?thesis by simp
  next
    case False
    with "1.prems" show ?thesis by (subst (asm) shift_loop.simps) simp
  qed
qed

lemma shift_loop_before: "shift_loop i d p = Inr p' \<Longrightarrow> j < i \<Longrightarrow> p' ! j = p ! j"
proof (induction i d p rule: shift_loop.induct)
  case (1 i d p)
  show ?case
  proof (cases "i < length p")
    case True
    with "1.prems" obtain s e where
      s: "addMinutes (start_time (p ! i)) d = Inr s" and
      e: "addMinutes (end_time (p ! i)) d = Inr e" and
      r: "shift_loop (i + 1) d (p[i := (p ! i)\<lparr>start_time := Val s, end_time := Val e\<rparr>]) = Inr p'"
      by (subst (asm) shift_loop.simps) (auto split: sum.splits)
    from "1.IH" [OF True s e r] "1.prems"(2) show ?thesis by simp
  next
    case False
    with "1.prems" show ?thesis by (subst (asm) shift_loop.simps) simp
  qed
qed

lemma shift_loop_at:
  "shift_loop i d p = Inr p' \<Longrightarrow> i \<le> j \<Longrightarrow> j < length p \<Longrightarrow>
   \<exists>s e. addMinutes (start_time (p ! j)) d = Inr s \<and> addMinutes (end_time (p ! j)) d = Inr e \<and>
         p' ! j = (p ! j)\<lparr>start_time := Val s, end_time := Val e\<rparr>"
proof (induction i d p rule: shift_loop.induct)
  case (1 i d p)
  from "1.prems" have True: "i < length p" by simp
  with "1.prems" obtain s e where
      s: "addMinutes (start_time (p ! i)) d = Inr s" and
      e: "addMinutes (end_time (p ! i)) d = Inr e" and
      r: "shift_loop (i + 1) d (p[i := (p ! i)\<lparr>start_time := Val s, end_time := Val e\<rparr>]) = Inr p'"
      by (subst (asm) shift_loop.simps) (auto split: sum.splits)
  show ?case
  proof (cases "j = i")
    case True
    from shift_loop_before [OF r, of i] have "p' ! i = (p ! i)\<lparr>start_time := Val s, end_time := Val e\<rparr>"
      using \<open>i < length p\<close> by simp
    with s e True show ?thesis by simp
  next
    case False
    with "1.prems" have "i + 1 \<le> j" by simp
    from "1.IH" [OF \<open>i < length p\<close> s e r this] "1.prems"(3) False show ?thesis by simp
  qed
qed

lemma shift_loop_returns:
  "\<forall>j. i \<le> j \<and> j < length p \<longrightarrow> times_ok (p ! j) \<Longrightarrow> \<exists>p'. shift_loop i d p = Inr p'"
proof (induction i d p rule: shift_loop.induct)
  case (1 i d p)
  show ?case
  proof (cases "i < length p")
    case True
    with "1.prems" have "times_ok (p ! i)" by simp
    then obtain s e where
      s: "addMinutes (start_time (p ! i)) d = Inr s" and
      e: "addMinutes (end_time (p ! i)) d = Inr e"
      using clock_ok_Inr unfolding times_ok_def by blast
    have "\<exists>p'. shift_loop (i + 1) d (p[i := (p ! i)\<lparr>start_time := Val s, end_time := Val e\<rparr>]) = Inr p'"
      using "1.prems" by (intro "1.IH" [OF True s e]) simp
    with True s e show ?thesis by (subst shift_loop.simps) simp
  next
    case False
    then show ?thesis by (subst shift_loop.simps) simp
  qed
qed

lemma updateTopicTiming_found:
  assumes "findIndex (\<lambda>t. topic_id t = topicId) plan = Some k"
    and "updateTopicTiming plan topicId actualTime = Inr plan'"
  shows "plan' = plan[k := (plan ! k)\<lparr>allocated_time := Num actualTime, completed := True\<rparr>] \<or>
    (\<exists>d. shift_loop (k + 1) d
       (plan[k := (plan ! k)\<lparr>allocated_time := Num actualTime, completed := True\<rparr>]) = Inr plan')"
proof (cases "js_sub (allocated_time (plan ! k)) (Num actualTime)")
  case NaN
  with assms show ?thesis by (simp add: updateTopicTiming_def Let_def)
next
  case (Num saved)
  with assms show ?thesis
    by (cases "0 < saved") (auto simp add: updateTopicTiming_def Let_def)
qed

lemma updateTopicTiming_length:
  assumes "updateTopicTiming plan topicId actualTime = Inr plan'"
  shows "length plan' = length plan"
proof (cases "findIndex (\<lambda>t. topic_id t = topicId) plan")
  case None
  with assms show ?thesis by (simp add: updateTopicTiming_def)
next
  case (Some k)
  from updateTopicTiming_found [OF Some assms] show ?thesis
    by (auto dest: shift_loop_length)
qed

lemma updateTopicTiming_returns:
  assumes "list_all times_ok plan"
  shows "\<not> isl (updateTopicTiming plan topicId actualTime)"
proof (cases "findIndex (\<lambda>t. topic_id t = topicId) plan")
  case None
  then show ?thesis by (simp add: updateTopicTiming_def)
next
  case (Some k)
  let ?p = "plan[k := (plan ! k)\<lparr>allocated_time := Num actualTime, completed := True\<rparr>]"
  have "\<forall>j. k + 1 \<le> j \<and> j < length ?p \<longrightarrow> times_ok (?p ! j)"
    using assms by (simp add: list_all_length)
  from shift_loop_returns [OF this] have "\<not> isl (shift_loop (k + 1) d ?p)" for d
    by (metis sum.disc(2))
  with Some show ?thesis
    by (simp add: updateTopicTiming_def Let_def split: jsnum.splits)
qed

lemma shift_loop_shape:
  assumes "shift_loop i d p = Inr p'" and "j < length p"
  shows "\<exists>s e. p' ! j = (p ! j)\<lparr>start_time := s, end_time := e\<rparr>"
proof (cases "j < i")
  case True
  from shift_loop_before [OF assms(1) True]
  have "p' ! j = (p ! j)\<lparr>start_time := start_time (p ! j), end_time := end_time (p ! j)\<rparr>"
    by simp
  then show ?thesis by blast
next
  case False
  with shift_loop_at [OF assms(1), of j] assms(2) show ?thesis by auto
qed

lemma updateTopicTiming_shape:
  assumes r: "updateTopicTiming plan topicId actualTime = Inr plan'" and j: "j < length plan"
  shows "\<exists>a c s e. plan' ! j =
           (plan ! j)\<lparr>allocated_time := a, completed := c, start_time := s, end_time := e\<rparr>"
proof (cases "findIndex (\<lambda>t. topic_id t = topicId) plan")
  case None
  with r have "plan' = plan" by (simp add: updateTopicTiming_def)
  then have "plan' ! j = (plan ! j)\<lparr>allocated_time := allocated_time (plan ! j),
      completed := completed (plan ! j), start_time := start_time (plan ! j),
      end_time := end_time (plan ! j)\<rparr>"
    by simp
  then show ?thesis by blast
next
  case (Some k)
  let ?p = "plan[k := (plan ! k)\<lparr>allocated_time := Num actualTime, completed := True\<rparr>]"
  have base: "\<exists>a c. ?p ! j = (plan ! j)\<lparr>allocated_time := a, completed := c\<rparr>"
  proof (cases "j = k")
    case True
    with j show ?thesis by auto
  next
    case False
    then have "?p ! j = (plan ! j)\<lparr>allocated_time := allocated_time (plan ! j),
        completed := completed (plan ! j)\<rparr>"
      by simp
    then show ?thesis by blast
  qed
  from updateTopicTiming_found [OF Some r]
  consider "plan' = ?p" | d where "shift_loop (k + 1) d ?p = Inr plan'"
    by blast
  then show ?thesis
  proof cases
    case 1
    from base obtain a c where "?p ! j = (plan ! j)\<lparr>allocated_time := a, completed := c\<rparr>"
      by blast
    with 1 have "plan' ! j = (plan ! j)\<lparr>allocated_time := a, completed := c,
        start_time := start_time (plan ! j), end_time := end_time (plan ! j)\<rparr>"
      by simp
    then show ?thesis by blast
  next
    case 2
    from shift_loop_shape [OF 2, of j] j
    obtain s e where "plan' ! j = (?p ! j)\<lparr>start_time := s, end_time := e\<rparr>"
      by auto
    with base show ?thesis by metis
  qed
qed

lemma example_plan_ok: "list_all times_ok example_plan"
  by (simp add: example_plan_def example_topic_def times_ok_def clock_ok_fields
        fields_900 fields_930 fields_1000 fields_1030)

lemma midnight_plan_ok: "list_all times_ok midnight_plan"
  by (simp add: midnight_plan_def example_topic_def times_ok_def clock_ok_fields
        fields_1200_am fields_1230_am fields_100_am fields_130_am)

lemma example_plan_first: "findIndex (\<lambda>t. topic_id t = 1) example_plan = Some 0"
  by (simp add: example_plan_def example_topic_def)

section \<open>Properties of the time reflow\<close>

text \<open>
  What the update does to the times of the later topics, in terms of \<open>addMinutes\<close>. When
  the completed topic is found at position \<open>k\<close> and \<open>timeSaved\<close> is its old \<open>allocated_time\<close>
  minus \<open>actualTime\<close>: the update returns a plan whenever all times of the plan are strings
  that \<open>addMinutes\<close> reads; in the returned plan, if \<open>timeSaved > 0\<close> the start and the end
  time of every topic after position \<open>k\<close> are the results of \<open>addMinutes\<close> with
  \<open>- timeSaved\<close> on the old start and the old end time, each on its own; and if
  \<open>timeSaved \<le> 0\<close> the start and end times of all topics are the old ones.
\<close>

lemma recordCompletion_reflow:
  assumes idx: "findIndex (\<lambda>t. topic_id t = topicId) plan = Some k"
    and saved: "js_sub (allocated_time (plan ! k)) (Num actualTime) = Num timeSaved"
  shows "(list_all times_ok plan \<longrightarrow> \<not> isl (updateTopicTiming plan topicId actualTime)) \<and>
    (\<forall>plan'. updateTopicTiming plan topicId actualTime = Inr plan' \<longrightarrow>
       (0 < timeSaved \<longrightarrow>
          (\<forall>i. k < i \<and> i < length plan \<longrightarrow>
             (\<exists>s e. addMinutes (start_time (plan ! i)) (- timeSaved) = Inr s \<and>
                    addMinutes (end_time (plan ! i)) (- timeSaved) = Inr e \<and>
                    start_time (plan' ! i) = Val s \<and> end_time (plan' ! i) = Val e))) \<and>
       (timeSaved \<le> 0 \<longrightarrow>
          (\<forall>i. i < length plan \<longrightarrow>
             start_time (plan' ! i) = start_time (plan ! i) \<and>
             end_time (plan' ! i) = end_time (plan ! i))))"
proof -
  let ?p = "plan[k := (plan ! k)\<lparr>allocated_time := Num actualTime, completed := True\<rparr>]"
  have early: "\<exists>s e. addMinutes (start_time (plan ! i)) (- timeSaved) = Inr s \<and>
              addMinutes (end_time (plan ! i)) (- timeSaved) = Inr e \<and>
              start_time (plan' ! i) = Val s \<and> end_time (plan' ! i) = Val e"
    if r: "updateTopicTiming plan topicId actualTime = Inr plan'"
      and pos: "0 < timeSaved" and i: "k < i" "i < length plan" for plan' i
  proof -
    from r idx saved pos have "shift_loop (k + 1) (- timeSaved) ?p = Inr plan'"
      by (simp add: updateTopicTiming_def Let_def)
    from shift_loop_at [OF this, of i] i show ?thesis by auto
  qed
  have late: "start_time (plan' ! i) = start_time (plan ! i) \<and>
              end_time (plan' ! i) = end_time (plan ! i)"
    if r: "updateTopicTiming plan topicId actualTime = Inr plan'"
      and le: "timeSaved \<le> 0" and i: "i < length plan" for plan' i
  proof -
    from r idx saved le have "plan' = ?p"
      by (simp add: updateTopicTiming_def Let_def)
    with i show ?thesis by (cases "i = k") simp_all
  qed
  from early late updateTopicTiming_returns [of plan topicId actualTime]
  show ?thesis by blast
qed

text \<open>
  The example of the specification: completing topic 1 of the three-topic plan after 20
  minutes moves topics 2 and 3 to 9:20 and 9:50 AM; completing it after 40 minutes moves
  nothing.
\<close>

lemma recordCompletion_reflow_example:
  "findIndex (\<lambda>t. topic_id t = 1) example_plan = Some 0 \<and>
   js_sub (allocated_time (example_plan ! 0)) (Num 20) = Num 10 \<and>
   js_sub (allocated_time (example_plan ! 0)) (Num 40) = Num (- 10) \<and>
   (\<exists>early. updateTopicTiming example_plan 1 20 = Inr early \<and>
      start_time (early ! 1) = Val ''9:20 AM'' \<and> end_time (early ! 1) = Val ''9:50 AM'' \<and>
      start_time (early ! 2) = Val ''9:50 AM'' \<and> end_time (early ! 2) = Val ''10:20 AM'') \<and>
   (\<exists>late. updateTopicTiming example_plan 1 40 = Inr late \<and>
      start_time (late ! 1) = Val ''9:30 AM'' \<and> end_time (late ! 1) = Val ''10:00 AM'' \<and>
      start_time (late ! 2) = Val ''10:00 AM'' \<and> end_time (late ! 2) = Val ''10:30 AM'')"
proof -
  have s20: "js_sub (allocated_time (example_plan ! 0)) (Num 20) = Num 10"
    by (simp add: example_plan_def example_topic_def)
  have s40: "js_sub (allocated_time (example_plan ! 0)) (Num 40) = Num (- 10)"
    by (simp add: example_plan_def example_topic_def)
  have len: "length example_plan = 3"
    by (simp add: example_plan_def)
  have a1: "addMinutes (start_time (example_plan ! 1)) (- 10) = Inr ''9:20 AM''"
    by (simp add: example_plan_def example_topic_def addMinutes_at [OF fields_930] render_eval)
  have a2: "addMinutes (end_time (example_plan ! 1)) (- 10) = Inr ''9:50 AM''"
    by (simp add: example_plan_def example_topic_def addMinutes_at [OF fields_1000] render_eval)
  have a3: "addMinutes (start_time (example_plan ! 2)) (- 10) = Inr ''9:50 AM''"
    by (simp add: example_plan_def example_topic_def addMinutes_at [OF fields_1000] render_eval)
  have a4: "addMinutes (end_time (example_plan ! 2)) (- 10) = Inr ''10:20 AM''"
    by (simp add: example_plan_def example_topic_def addMinutes_at [OF fields_1030] render_eval)
  have t1: "start_time (example_plan ! 1) = Val ''9:30 AM'' \<and>
            end_time (example_plan ! 1) = Val ''10:00 AM''"
    by (simp add: example_plan_def example_topic_def)
  have t2: "start_time (example_plan ! 2) = Val ''10:00 AM'' \<and>
            end_time (example_plan ! 2) = Val ''10:30 AM''"
    by (simp add: example_plan_def example_topic_def)
  note E = recordCompletion_reflow [OF example_plan_first s20]
  from E example_plan_ok obtain early where e: "updateTopicTiming example_plan 1 20 = Inr early"
    by (cases "updateTopicTiming example_plan 1 20") auto
  from E e have shifted: "\<forall>i. 0 < i \<and> i < length example_plan \<longrightarrow>
      (\<exists>s e. addMinutes (start_time (example_plan ! i)) (- 10) = Inr s \<and>
             addMinutes (end_time (example_plan ! i)) (- 10) = Inr e \<and>
             start_time (early ! i) = Val s \<and> end_time (early ! i) = Val e)"
    by simp
  from shifted [rule_format, of 1] a1 a2 len
  have e1: "start_time (early ! 1) = Val ''9:20 AM'' \<and> end_time (early ! 1) = Val ''9:50 AM''"
    by simp
  from shifted [rule_format, of 2] a3 a4 len
  have e2: "start_time (early ! 2) = Val ''9:50 AM'' \<and> end_time (early ! 2) = Val ''10:20 AM''"
    by simp
  note L = recordCompletion_reflow [OF example_plan_first s40]
  from L example_plan_ok obtain late where l: "updateTopicTiming example_plan 1 40 = Inr late"
    by (cases "updateTopicTiming example_plan 1 40") auto
  from L l have same: "\<forall>i<length example_plan.
      start_time (late ! i) = start_time (example_plan ! i) \<and>
      end_time (late ! i) = end_time (example_plan ! i)"
    by simp
  from same [rule_format, of 1] same [rule_format, of 2] len t1 t2
  have l12: "start_time (late ! 1) = Val ''9:30 AM'' \<and> end_time (late ! 1) = Val ''10:00 AM'' \<and>
      start_time (late ! 2) = Val ''10:00 AM'' \<and> end_time (late ! 2) = Val ''10:30 AM''"
    by simp
  from example_plan_first s20 s40 e e1 e2 l l12 show ?thesis by blast
qed

text \<open>
  C1. The shift is what \<open>addMinutes\<close> gives, and in the hour after midnight that is not
  \<open>timeSaved\<close> minutes earlier. In the plan that starts at midnight, completing topic 1
  after 5 of its 30 minutes (\<open>timeSaved\<close> 25) moves the start of topic 2 from 12:30 AM, 30
  minutes after midnight, to 12:05 PM, 725 minutes after midnight, where the time 25
  minutes earlier is 12:05 AM. The end of topic 2 and both times of topic 3, which are not
  in that hour, do move 25 minutes earlier, to 12:35 AM, 12:35 AM and 1:05 AM.
\<close>

theorem reflow_after_midnight:
  "findIndex (\<lambda>t. topic_id t = 1) midnight_plan = Some 0 \<and>
   js_sub (allocated_time (midnight_plan ! 0)) (Num 5) = Num 25 \<and>
   start_time (midnight_plan ! 1) = Val (clock_string 12 30 ''AM'') \<and>
   valid_clock 12 30 ''AM'' \<and> minutes_of_day 12 30 ''AM'' = 30 \<and>
   (\<exists>plan'. updateTopicTiming midnight_plan 1 5 = Inr plan' \<and>
      start_time (plan' ! 1) = Val (clock_string 12 5 ''PM'') \<and>
      end_time (plan' ! 1) = Val ''12:35 AM'' \<and>
      start_time (plan' ! 2) = Val ''12:35 AM'' \<and>
      end_time (plan' ! 2) = Val ''1:05 AM'') \<and>
   clock_string 12 5 ''PM'' = ''12:05 PM'' \<and> minutes_of_day 12 5 ''PM'' = 725"
proof -
  have idx: "findIndex (\<lambda>t. topic_id t = 1) midnight_plan = Some 0"
    by (simp add: midnight_plan_def example_topic_def)
  have sv: "js_sub (allocated_time (midnight_plan ! 0)) (Num 5) = Num 25"
    by (simp add: midnight_plan_def example_topic_def)
  have len: "length midnight_plan = 3"
    by (simp add: midnight_plan_def)
  have old: "start_time (midnight_plan ! 1) = Val (clock_string 12 30 ''AM'')"
    by (simp add: midnight_plan_def example_topic_def clock_string_def two_digits_def
          show_int_def show_nat_2 digit_char_def)
  have new: "clock_string 12 5 ''PM'' = ''12:05 PM''"
    by (simp add: clock_string_def two_digits_def show_int_def show_nat_2 digit_char_def)
  have val: "valid_clock 12 30 ''AM'' \<and> minutes_of_day 12 30 ''AM'' = 30 \<and>
      minutes_of_day 12 5 ''PM'' = 725"
    by (simp add: valid_clock_def minutes_of_day_def)
  have a1: "addMinutes (start_time (midnight_plan ! 1)) (- 25) = Inr ''12:05 PM''"
    by (simp add: midnight_plan_def example_topic_def addMinutes_at [OF fields_1230_am] render_eval)
  have a2: "addMinutes (end_time (midnight_plan ! 1)) (- 25) = Inr ''12:35 AM''"
    by (simp add: midnight_plan_def example_topic_def addMinutes_at [OF fields_100_am] render_eval)
  have a3: "addMinutes (start_time (midnight_plan ! 2)) (- 25) = Inr ''12:35 AM''"
    by (simp add: midnight_plan_def example_topic_def addMinutes_at [OF fields_100_am] render_eval)
  have a4: "addMinutes (end_time (midnight_plan ! 2)) (- 25) = Inr ''1:05 AM''"
    by (simp add: midnight_plan_def example_topic_def addMinutes_at [OF fields_130_am] render_eval)
  note E = recordCompletion_reflow [OF idx sv]
  from E midnight_plan_ok obtain plan' where r: "updateTopicTiming midnight_plan 1 5 = Inr plan'"
    by (cases "updateTopicTiming midnight_plan 1 5") auto
  from E r have shifted: "\<forall>i. 0 < i \<and> i < length midnight_plan \<longrightarrow>
      (\<exists>s e. addMinutes (start_time (midnight_plan ! i)) (- 25) = Inr s \<and>
             addMinutes (end_time (midnight_plan ! i)) (- 25) = Inr e \<and>
             start_time (plan' ! i) = Val s \<and> end_time (plan' ! i) = Val e)"
    by simp
  from shifted [rule_format, of 1] a1 a2 len new
  have t2: "start_time (plan' ! 1) = Val (clock_string 12 5 ''PM'') \<and>
      end_time (plan' ! 1) = Val ''12:35 AM''"
    by simp
  from shifted [rule_format, of 2] a3 a4 len
  have t3: "start_time (plan' ! 2) = Val ''12:35 AM'' \<and> end_time (plan' ! 2) = Val ''1:05 AM''"
    by simp
  from idx sv old val r t2 t3 new show ?thesis by blast
qed

text \<open>
  C7. When the completed topic is found at position \<open>k\<close>: the update returns a plan
  whenever all times of the plan are strings that \<open>addMinutes\<close> reads, and in the returned
  plan the topic at position \<open>k\<close> is the old one with \<open>allocated_time\<close> overwritten by
  \<open>actualTime\<close> and \<open>completed\<close> set (so its start time, end time and sessions are the old
  ones), and the topics before position \<open>k\<close> are the old ones.
\<close>

theorem recordCompletion_frame:
  assumes idx: "findIndex (\<lambda>t. topic_id t = topicId) plan = Some k"
  shows "(list_all times_ok plan \<longrightarrow> \<not> isl (updateTopicTiming plan topicId actualTime)) \<and>
    (\<forall>plan'. updateTopicTiming plan topicId actualTime = Inr plan' \<longrightarrow>
       plan' ! k = (plan ! k)\<lparr>allocated_time := Num actualTime, completed := True\<rparr> \<and>
       take k plan' = take k plan)"
proof -
  let ?p = "plan[k := (plan ! k)\<lparr>allocated_time := Num actualTime, completed := True\<rparr>]"
  from findIndex_Some [OF idx] have k: "k < length plan" by simp
  have "plan' ! k = (plan ! k)\<lparr>allocated_time := Num actualTime, completed := True\<rparr> \<and>
       take k plan' = take k plan"
    if r: "updateTopicTiming plan topicId actualTime = Inr plan'" for plan'
  proof -
    have len: "length plan' = length plan"
      using r by (rule updateTopicTiming_length)
    have upto: "plan' ! j = ?p ! j" if "j < k + 1" for j
    proof -
      from updateTopicTiming_found [OF idx r]
      consider "plan' = ?p" | d where "shift_loop (k + 1) d ?p = Inr plan'"
        by blast
      then show ?thesis
      proof cases
        case 1
        then show ?thesis by simp
      next
        case 2
        from shift_loop_before [OF 2 that] show ?thesis .
      qed
    qed
    from upto [of k] k have at: "plan' ! k = (plan ! k)\<lparr>allocated_time := Num actualTime, completed := True\<rparr>"
      by simp
    have "take k plan' = take k plan"
    proof (rule nth_equalityI)
      show "length (take k plan') = length (take k plan)" using len by simp
    next
      fix j assume "j < length (take k plan')"
      then have "j < k" by simp
      with upto [of j] show "take k plan' ! j = take k plan ! j" by simp
    qed
    with at show ?thesis by simp
  qed
  with updateTopicTiming_returns [of plan topicId actualTime] show ?thesis by blast
qed

theorem recordCompletion_frame_witness:
  "findIndex (\<lambda>t. topic_id t = 2) example_plan = Some 1 \<and>
   (\<exists>plan'. updateTopicTiming example_plan 2 20 = Inr plan' \<and>
      plan' ! 1 = (example_topic 2 ''9:30 AM'' ''10:00 AM'')\<lparr>allocated_time := Num 20, completed := True\<rparr> \<and>
      take 1 plan' = [example_topic 1 ''9:00 AM'' ''9:30 AM''])"
proof -
  have idx: "findIndex (\<lambda>t. topic_id t = 2) example_plan = Some 1"
    by (simp add: example_plan_def example_topic_def)
  note F = recordCompletion_frame [OF idx, of 20]
  from F example_plan_ok obtain plan' where r: "updateTopicTiming example_plan 2 20 = Inr plan'"
    by (cases "updateTopicTiming example_plan 2 20") auto
  from F r have "plan' ! 1 = (example_plan ! 1)\<lparr>allocated_time := Num 20, completed := True\<rparr> \<and>
      take 1 plan' = take 1 example_plan"
    by simp
  then have "plan' ! 1 = (example_topic 2 ''9:30 AM'' ''10:00 AM'')\<lparr>allocated_time := Num 20, completed := True\<rparr> \<and>
      take 1 plan' = [example_topic 1 ''9:00 AM'' ''9:30 AM'']"
    by (simp add: example_plan_def)
  with idx r show ?thesis by blast
qed

text \<open>
  C8. When no topic of the plan has the given id, the update returns the plan itself,
  every topic as it was, and raises nothing.
\<close>

theorem recordCompletion_unknown_id:
  assumes "\<forall>t\<in>set plan. topic_id t \<noteq> topicId"
  shows "updateTopicTiming plan topicId actualTime = Inr plan"
proof -
  from assms have "findIndex (\<lambda>t. topic_id t = topicId) plan = None"
    by (simp add: findIndex_None)
  then show ?thesis by (simp add: updateTopicTiming_def)
qed

theorem recordCompletion_unknown_id_witness:
  "map topic_id example_plan = [1, 2, 3] \<and> updateTopicTiming example_plan 7 20 = Inr example_plan"
proof -
  have ids: "map topic_id example_plan = [1, 2, 3]"
    by (simp add: example_plan_def example_topic_def)
  have h: "\<forall>t\<in>set example_plan. topic_id t \<noteq> 7"
    by (simp add: example_plan_def example_topic_def)
  from ids recordCompletion_unknown_id [OF h, of 20] show ?thesis by simp
qed

text \<open>
  C10. For every plan, id and actual time: the update returns a plan whenever all times
  of the plan are strings that \<open>addMinutes\<close> reads, and the returned plan has the length of
  the old one and, position by position, the same \<open>topic_id\<close>, \<open>topic\<close>, \<open>summary\<close> and \<open>qna\<close>.
\<close>

theorem recordCompletion_structure:
  "(list_all times_ok plan \<longrightarrow> \<not> isl (updateTopicTiming plan topicId actualTime)) \<and>
   (\<forall>plan'. updateTopicTiming plan topicId actualTime = Inr plan' \<longrightarrow>
      length plan' = length plan \<and>
      map topic_id plan' = map topic_id plan \<and>
      map topic plan' = map topic plan \<and>
      map summary plan' = map summary plan \<and>
      map qna plan' = map qna plan)"
proof -
  have "length plan' = length plan \<and>
      map topic_id plan' = map topic_id plan \<and>
      map topic plan' = map topic plan \<and>
      map summary plan' = map summary plan \<and>
      map qna plan' = map qna plan"
    if r: "updateTopicTiming plan topicId actualTime = Inr plan'" for plan'
  proof -
    have len: "length plan' = length plan"
      using r by (rule updateTopicTiming_length)
    have same: "topic_id (plan' ! j) = topic_id (plan ! j) \<and> topic (plan' ! j) = topic (plan ! j) \<and>
        summary (plan' ! j) = summary (plan ! j) \<and> qna (plan' ! j) = qna (plan ! j)"
      if "j < length plan" for j
      using updateTopicTiming_shape [OF r that] by auto
    from len same show ?thesis
      by (simp add: list_eq_iff_nth_eq)
  qed
  with updateTopicTiming_returns [of plan topicId actualTime] show ?thesis by blast
qed

theorem recordCompletion_structure_witness:
  "list_all times_ok example_plan \<and>
   (\<exists>plan'. updateTopicTiming example_plan 1 20 = Inr plan' \<and>
      length plan' = 3 \<and> map topic_id plan' = [1, 2, 3])"
proof -
  note S = recordCompletion_structure [of example_plan 1 20]
  from S example_plan_ok obtain plan' where r: "updateTopicTiming example_plan 1 20 = Inr plan'"
    by (cases "updateTopicTiming example_plan 1 20") auto
  from S r have "length plan' = length example_plan \<and>
      map topic_id plan' = map topic_id example_plan"
    by simp
  then have "length plan' = 3 \<and> map topic_id plan' = [1, 2, 3]"
    by (simp add: example_plan_def example_topic_def)
  with example_plan_ok r show ?thesis by simp
qed

section \<open>Facts about the normalizer\<close>

lemma kept_qualifies: "kept = qualifies"
proof
  fix item
  show "kept item = qualifies item"
    by (cases "i_topic item"; cases "i_summary item") (simp_all add: kept_def qualifies_def)
qed

lemma map_enumerate_ids:
  "map (\<lambda>(index, item). topic_id (toTopic schedule index item)) (enumerate n xs) =
   map int [Suc n..<Suc (n + length xs)]"
proof (induction xs arbitrary: n)
  case Nil
  then show ?case by simp
next
  case (Cons x xs)
  have "[Suc n..<Suc (n + length (x # xs))] = Suc n # [Suc (Suc n)..<Suc (Suc n + length xs)]"
    using upt_conv_Cons [of "Suc n" "Suc (Suc n + length xs)"] by simp
  with Cons.IH [of "Suc n"] show ?case
    by (simp add: toTopic_def Let_def)
qed

lemma map_enumerate_field:
  assumes "\<And>index item. f (toTopic schedule index item) = g item"
  shows "map (\<lambda>(index, item). f (toTopic schedule index item)) (enumerate n xs) = map g xs"
  using assms by (induction xs arbitrary: n) simp_all

lemma transformedPlan_nth:
  assumes "i < length (filter kept schedule)"
  shows "transformedPlan schedule ! i = toTopic schedule i (filter kept schedule ! i)"
  using assms by (simp add: transformedPlan_def nth_enumerate_eq)

lemma toTopic_companion:
  assumes "qnaSession schedule item = Some q"
  shows "length (sessions (toTopic schedule index item)) = 2"
    and "s_duration (sessions (toTopic schedule index item) ! 1) = i_duration q"
    and "end_time (toTopic schedule index item) =
           (if truthy_str (i_end_time q) then i_end_time q else i_end_time item)"
    and "allocated_time (toTopic schedule index item) =
           js_add (to_number (i_allocated_time item)) (Num (companion_duration (Some q)))"
  using assms by (simp_all add: toTopic_def Let_def)

lemma toTopic_alone:
  assumes "qnaSession schedule item = None"
  shows "length (sessions (toTopic schedule index item)) = 1"
    and "end_time (toTopic schedule index item) = i_end_time item"
    and "allocated_time (toTopic schedule index item) = to_number (i_allocated_time item)"
proof -
  show "length (sessions (toTopic schedule index item)) = 1"
    and "end_time (toTopic schedule index item) = i_end_time item"
    using assms by (simp_all add: toTopic_def Let_def)
  show "allocated_time (toTopic schedule index item) = to_number (i_allocated_time item)"
    using assms
    by (cases "i_allocated_time item") (simp_all add: toTopic_def Let_def companion_duration_def)
qed

lemma toTopic_falsy_allocation:
  assumes "i_allocated_time item = Null \<or> i_allocated_time item = Val 0"
  shows "s_duration (sessions (toTopic schedule index item) ! 0) = Val 30"
    and "suggested_time (toTopic schedule index item) = 30"
    and "allocated_time (toTopic schedule index item) =
           Num (companion_duration (qnaSession schedule item))"
  using assms by (auto simp: toTopic_def Let_def or30_def)

lemma toTopic_missing_allocation:
  assumes "i_allocated_time item = Undefined"
  shows "s_duration (sessions (toTopic schedule index item) ! 0) = Val 30"
    and "suggested_time (toTopic schedule index item) = 30"
    and "allocated_time (toTopic schedule index item) = NaN"
  using assms by (simp_all add: toTopic_def Let_def or30_def)

lemma toTopic_allocation_nonneg:
  assumes "i_allocated_time item = Null \<or> (\<exists>a\<ge>0. i_allocated_time item = Val a)"
    and "\<forall>q d. qnaSession schedule item = Some q \<longrightarrow> i_duration q = Val d \<longrightarrow> 0 \<le> d"
  shows "\<exists>n\<ge>0. allocated_time (toTopic schedule index item) = Num n"
proof -
  have "0 \<le> companion_duration (qnaSession schedule item)"
    using assms(2) by (auto simp: companion_duration_def split: option.splits js.splits)
  with assms(1) show ?thesis
    by (auto simp: toTopic_def Let_def)
qed

lemmas item_eval = study_item_def qna_item_def kept_def is_companion_def qnaSession_def
  transformedPlan_def toTopic_def companion_duration_def or30_def qna_or_empty_def
  enumerate_eq_zip Let_def

section \<open>Properties of the normalizer\<close>

text \<open>
  C2. The filter keeps exactly the records whose topic name and summary are both present
  and non-empty; the plan has as many topics as there are such records, their \<open>topic_id\<close>
  values are \<open>1, 2, \<dots>, N\<close> in this order, and the topics follow the kept records in input
  order (their names, summaries and start times are those of the kept records, one by one).
\<close>

theorem normalizer_dense_ids:
  "kept = qualifies \<and>
   length (transformedPlan schedule) = length (filter qualifies schedule) \<and>
   map topic_id (transformedPlan schedule) =
     map int [1..<Suc (length (filter qualifies schedule))] \<and>
   map topic (transformedPlan schedule) = map i_topic (filter qualifies schedule) \<and>
   map summary (transformedPlan schedule) = map i_summary (filter qualifies schedule) \<and>
   map start_time (transformedPlan schedule) = map i_start_time (filter qualifies schedule)"
proof -
  have len: "length (transformedPlan schedule) = length (filter kept schedule)"
    by (simp add: transformedPlan_def)
  have ids: "map topic_id (transformedPlan schedule) = map int [1..<Suc (length (filter kept schedule))]"
    using map_enumerate_ids [of schedule 0 "filter kept schedule"]
    by (simp add: transformedPlan_def comp_def case_prod_unfold)
  have tp: "map topic (transformedPlan schedule) = map i_topic (filter kept schedule)"
    using map_enumerate_field [of topic schedule i_topic 0 "filter kept schedule"]
    by (simp add: transformedPlan_def comp_def case_prod_unfold toTopic_def Let_def)
  have sm: "map summary (transformedPlan schedule) = map i_summary (filter kept schedule)"
    using map_enumerate_field [of summary schedule i_summary 0 "filter kept schedule"]
    by (simp add: transformedPlan_def comp_def case_prod_unfold toTopic_def Let_def)
  have st: "map start_time (transformedPlan schedule) = map i_start_time (filter kept schedule)"
    using map_enumerate_field [of start_time schedule i_start_time 0 "filter kept schedule"]
    by (simp add: transformedPlan_def comp_def case_prod_unfold toTopic_def Let_def)
  from len ids tp sm st show ?thesis
    by (simp add: kept_qualifies)
qed

text \<open>
  C3, as amended. For the kept record at position \<open>i\<close> and the topic made from it: if some
  record of the whole schedule has the same \<open>topic_id\<close> and type \<open>qna\<close>, then for the first
  such record the topic has two sessions, the second session's duration is that record's
  duration, and the topic's end time is that record's end time when it is a non-empty
  string, and the study record's own end time otherwise; if there is no such record, the
  topic has one session and, when the study record's \<open>allocated_time\<close> is a number, its
  \<open>allocated_time\<close> is that number.
\<close>

theorem companion_pairing:
  fixes schedule :: "Item list" and i :: nat
  defines "item \<equiv> filter kept schedule ! i" and "t \<equiv> transformedPlan schedule ! i"
  assumes i: "i < length (filter kept schedule)"
  shows "((\<exists>q\<in>set schedule. is_companion item q) \<longrightarrow>
           (\<exists>j<length schedule. is_companion item (schedule ! j) \<and>
              (\<forall>k<j. \<not> is_companion item (schedule ! k)) \<and>
              length (sessions t) = 2 \<and>
              s_duration (sessions t ! 1) = i_duration (schedule ! j) \<and>
              end_time t = (if truthy_str (i_end_time (schedule ! j))
                            then i_end_time (schedule ! j) else i_end_time item))) \<and>
         ((\<forall>q\<in>set schedule. \<not> is_companion item q) \<longrightarrow>
            length (sessions t) = 1 \<and>
            (\<forall>n. i_allocated_time item = Val n \<longrightarrow> allocated_time t = Num n))"
proof -
  have t: "t = toTopic schedule i item"
    unfolding t_def item_def using i by (rule transformedPlan_nth)
  have with_companion: ?thesis if "\<exists>q\<in>set schedule. is_companion item q"
  proof -
    from that have "qnaSession schedule item \<noteq> None"
      by (auto simp: qnaSession_def find_None_iff)
    then obtain q where q: "qnaSession schedule item = Some q" by auto
    then obtain j where j: "j < length schedule" "is_companion item (schedule ! j)"
      "q = schedule ! j" "\<forall>k<j. \<not> is_companion item (schedule ! k)"
      unfolding qnaSession_def find_Some_iff by blast
    from toTopic_companion [OF q, of i] j t that show ?thesis by auto
  qed
  have without: ?thesis if "\<forall>q\<in>set schedule. \<not> is_companion item q"
  proof -
    from that have "qnaSession schedule item = None"
      by (auto simp: qnaSession_def find_None_iff)
    from toTopic_alone [OF this, of i] t that show ?thesis by auto
  qed
  from with_companion without show ?thesis by blast
qed

theorem companion_pairing_witness:
  "length (filter kept paired_schedule) = 1 \<and>
   is_companion (paired_schedule ! 0) (paired_schedule ! 1) \<and>
   length (sessions (transformedPlan paired_schedule ! 0)) = 2 \<and>
   s_duration (sessions (transformedPlan paired_schedule ! 0) ! 1) = Val 10 \<and>
   end_time (transformedPlan paired_schedule ! 0) = Val ''9:40 AM'' \<and>
   length (filter kept alone_schedule) = 1 \<and>
   qnaSession alone_schedule (alone_schedule ! 0) = None \<and>
   length (sessions (transformedPlan alone_schedule ! 0)) = 1 \<and>
   allocated_time (transformedPlan alone_schedule ! 0) = Num 30"
proof -
  have n: "0 < length (filter kept paired_schedule)"
    by (simp add: paired_schedule_def item_eval)
  have n1: "length (filter kept paired_schedule) = 1"
    by (simp add: paired_schedule_def item_eval)
  have it: "filter kept paired_schedule ! 0 = paired_schedule ! 0"
    by (simp add: paired_schedule_def item_eval)
  have c1: "is_companion (paired_schedule ! 0) (paired_schedule ! 1)"
    by (simp add: paired_schedule_def item_eval)
  have c0: "\<not> is_companion (paired_schedule ! 0) (paired_schedule ! 0)"
    by (simp add: paired_schedule_def item_eval)
  have len: "length paired_schedule = 2"
    by (simp add: paired_schedule_def)
  have ex: "\<exists>q\<in>set paired_schedule. is_companion (paired_schedule ! 0) q"
    using c1 len by (metis nth_mem one_less_numeral_iff semiring_norm(76))
  note P = companion_pairing [OF n, unfolded it]
  from P ex
  obtain j where j: "j < length paired_schedule" "is_companion (paired_schedule ! 0) (paired_schedule ! j)"
    "length (sessions (transformedPlan paired_schedule ! 0)) = 2"
    "s_duration (sessions (transformedPlan paired_schedule ! 0) ! 1) = i_duration (paired_schedule ! j)"
    "end_time (transformedPlan paired_schedule ! 0) =
       (if truthy_str (i_end_time (paired_schedule ! j)) then i_end_time (paired_schedule ! j)
        else i_end_time (paired_schedule ! 0))"
    by blast
  from j(1,2) c0 len have "j = 1"
    by (cases j) auto
  with j have paired: "s_duration (sessions (transformedPlan paired_schedule ! 0) ! 1) = Val 10 \<and>
      end_time (transformedPlan paired_schedule ! 0) = Val ''9:40 AM''"
    by (simp add: paired_schedule_def study_item_def qna_item_def)
  have m: "0 < length (filter kept alone_schedule)"
    by (simp add: alone_schedule_def item_eval)
  have m1: "length (filter kept alone_schedule) = 1"
    by (simp add: alone_schedule_def item_eval)
  have it': "filter kept alone_schedule ! 0 = alone_schedule ! 0"
    by (simp add: alone_schedule_def item_eval)
  have none: "\<forall>q\<in>set alone_schedule. \<not> is_companion (alone_schedule ! 0) q"
    by (simp add: alone_schedule_def item_eval)
  have q: "qnaSession alone_schedule (alone_schedule ! 0) = None"
    by (simp add: alone_schedule_def item_eval)
  have al: "i_allocated_time (alone_schedule ! 0) = Val 30"
    by (simp add: alone_schedule_def study_item_def)
  note A = companion_pairing [OF m, unfolded it']
  from A none al
  have alone: "length (sessions (transformedPlan alone_schedule ! 0)) = 1 \<and>
      allocated_time (transformedPlan alone_schedule ! 0) = Num 30"
    by blast
  from n1 c1 j(3) paired m1 q alone show ?thesis by simp
qed

text \<open>
  The claim as stated fails: a companion without an end time leaves the topic with the
  study record's end time, not with the companion's.
\<close>

theorem companion_end_time_counterexample:
  "kept (open_ended_schedule ! 0) \<and>
   qnaSession open_ended_schedule (open_ended_schedule ! 0) = Some (open_ended_schedule ! 1) \<and>
   i_end_time (open_ended_schedule ! 1) = Undefined \<and>
   end_time (transformedPlan open_ended_schedule ! 0) = Val ''9:30 AM'' \<and>
   end_time (transformedPlan open_ended_schedule ! 0) \<noteq> i_end_time (open_ended_schedule ! 1)"
  by (simp add: open_ended_schedule_def item_eval)

text \<open>
  C4. A kept study record without \<open>allocated_time\<close> gets the default 30 as the duration of
  its study session and as \<open>suggested_time\<close>, but its \<open>allocated_time\<close> sum is \<open>NaN\<close>, with or
  without a companion: neither 0 nor the companion's duration, and not an integer.
\<close>

theorem missing_allocation_is_NaN:
  "kept (unallocated_schedule ! 0) \<and>
   i_allocated_time (unallocated_schedule ! 0) = Undefined \<and>
   qnaSession unallocated_schedule (unallocated_schedule ! 0) = None \<and>
   s_duration (sessions (transformedPlan unallocated_schedule ! 0) ! 0) = Val 30 \<and>
   suggested_time (transformedPlan unallocated_schedule ! 0) = 30 \<and>
   allocated_time (transformedPlan unallocated_schedule ! 0) = NaN \<and>
   qnaSession unallocated_paired_schedule (unallocated_paired_schedule ! 0) =
     Some (unallocated_paired_schedule ! 1) \<and>
   i_duration (unallocated_paired_schedule ! 1) = Val 10 \<and>
   allocated_time (transformedPlan unallocated_paired_schedule ! 0) = NaN"
  by (simp add: unallocated_schedule_def unallocated_paired_schedule_def item_eval)

text \<open>
  C5, as amended. For the kept record at position \<open>i\<close> whose \<open>allocated_time\<close> is a non-zero
  number and whose companion, if it has one, carries a duration: the durations of the
  topic's sessions add up to its \<open>allocated_time\<close>.
\<close>

theorem session_sum_matches_allocation:
  fixes schedule :: "Item list" and i :: nat
  defines "item \<equiv> filter kept schedule ! i" and "t \<equiv> transformedPlan schedule ! i"
  assumes i: "i < length (filter kept schedule)"
    and a: "i_allocated_time item = Val a" "a \<noteq> 0"
    and d: "\<forall>q. qnaSession schedule item = Some q \<longrightarrow> i_duration q \<noteq> Undefined"
  shows "session_total (sessions t) = allocated_time t"
proof -
  have t: "t = toTopic schedule i item"
    unfolding t_def item_def using i by (rule transformedPlan_nth)
  show ?thesis
  proof (cases "qnaSession schedule item")
    case None
    with a show ?thesis
      by (simp add: t toTopic_def Let_def session_total_def or30_def companion_duration_def)
  next
    case (Some q)
    with d have "i_duration q \<noteq> Undefined" by simp
    with Some a show ?thesis
      by (cases "i_duration q")
         (simp_all add: t toTopic_def Let_def session_total_def or30_def companion_duration_def)
  qed
qed


theorem session_sum_matches_allocation_witness:
  "length (filter kept paired_schedule) = 1 \<and>
   i_allocated_time (filter kept paired_schedule ! 0) = Val 30 \<and>
   qnaSession paired_schedule (filter kept paired_schedule ! 0) = Some (paired_schedule ! 1) \<and>
   i_duration (paired_schedule ! 1) = Val 10 \<and>
   session_total (sessions (transformedPlan paired_schedule ! 0)) = Num 40 \<and>
   allocated_time (transformedPlan paired_schedule ! 0) = Num 40"
proof -
  have n: "0 < length (filter kept paired_schedule)"
    by (simp add: paired_schedule_def item_eval)
  have n1: "length (filter kept paired_schedule) = 1"
    by (simp add: paired_schedule_def item_eval)
  have a: "i_allocated_time (filter kept paired_schedule ! 0) = Val 30"
    by (simp add: paired_schedule_def item_eval)
  have q: "qnaSession paired_schedule (filter kept paired_schedule ! 0) = Some (paired_schedule ! 1)"
    by (simp add: paired_schedule_def item_eval)
  have dur: "i_duration (paired_schedule ! 1) = Val 10"
    by (simp add: paired_schedule_def item_eval)
  have d: "\<forall>q. qnaSession paired_schedule (filter kept paired_schedule ! 0) = Some q \<longrightarrow>
             i_duration q \<noteq> Undefined"
    using q dur by simp
  have al: "allocated_time (transformedPlan paired_schedule ! 0) = Num 40"
    by (simp add: paired_schedule_def item_eval)
  from session_sum_matches_allocation [OF n a _ d] al
  have "session_total (sessions (transformedPlan paired_schedule ! 0)) = Num 40"
    by simp
  with n1 a q dur al show ?thesis by simp
qed

text \<open>
  The claim as stated fails: with \<open>allocated_time\<close> \<open>null\<close> and a companion of 10 minutes the
  sessions are 30 and 10 minutes, and the sum stored is 10.
\<close>

theorem session_sum_counterexample:
  "kept (null_allocated_schedule ! 0) \<and>
   map s_duration (sessions (transformedPlan null_allocated_schedule ! 0)) = [Val 30, Val 10] \<and>
   session_total (sessions (transformedPlan null_allocated_schedule ! 0)) = Num 40 \<and>
   allocated_time (transformedPlan null_allocated_schedule ! 0) = Num 10"
  by (simp add: null_allocated_schedule_def item_eval session_total_def)

section \<open>Properties of the clock arithmetic\<close>

text \<open>
  C6. The hour 12 AM is read as 12 hours, not as 0: ten minutes before 12:30 AM is given as
  12:20 PM, going back ten minutes gives 12:30 PM, and adding nothing to 12:30 AM already
  gives 12:30 PM.
\<close>

theorem addMinutes_midnight_hour:
  "addMinutes (Val ''12:30 AM'') (- 10) = Inr ''12:20 PM'' \<and>
   addMinutes (Val ''12:20 PM'') 10 = Inr ''12:30 PM'' \<and>
   addMinutes (Val ''12:30 AM'') 0 = Inr ''12:30 PM''"
  by (simp add: addMinutes_at [OF fields_1230_am] addMinutes_at [OF fields_1220_pm] render_eval)

text \<open>
  Away from the hour after midnight the arithmetic is exact: for a valid clock string
  other than 12:MM AM, and a shift that stays within the day, the result is the valid
  clock string of the time that many minutes later; and when the shifted time is not
  before 1:00 AM, shifting back returns the string started from.
\<close>

lemma addMinutes_exact:
  assumes "valid_clock h m p" and "\<not> (h = 12 \<and> p = ''AM'')"
    and "0 \<le> minutes_of_day h m p + d" and "minutes_of_day h m p + d < 1440"
  shows "\<exists>h' m' p'. addMinutes (Val (clock_string h m p)) d = Inr (clock_string h' m' p') \<and>
           valid_clock h' m' p' \<and>
           minutes_of_day h' m' p' = minutes_of_day h m p + d \<and>
           (60 \<le> minutes_of_day h m p + d \<longrightarrow> \<not> (h' = 12 \<and> p' = ''AM''))"
proof -
  let ?T = "minutes_of_day h m p + d"
  let ?h = "if (?T div 60) mod 12 = 0 then 12 else (?T div 60) mod 12"
  let ?m = "?T mod 60"
  let ?p = "if ?T \<ge> 720 then ''PM'' else ''AM''"
  from assms(3) have "clock_render ?T = clock_string ?h ?m ?p"
    by (rule clock_render_string)
  with addMinutes_clock_string [OF assms(1,2), of d]
  have 1: "addMinutes (Val (clock_string h m p)) d = Inr (clock_string ?h ?m ?p)"
    by (simp only:)
  have 2: "valid_clock ?h ?m ?p"
    using assms(3,4) by (rule rendered_fields(1))
  have 3: "minutes_of_day ?h ?m ?p = ?T"
    using assms(3,4) by (rule rendered_fields(2))
  have 4: "\<not> (?h = 12 \<and> ?p = ''AM'')" if "60 \<le> ?T"
    using assms(3,4) that by (rule rendered_fields(3))
  from 1 2 3 4 show ?thesis by blast
qed

lemma addMinutes_round_trip:
  assumes "valid_clock h m p" and "\<not> (h = 12 \<and> p = ''AM'')"
    and "60 \<le> minutes_of_day h m p + d" and "minutes_of_day h m p + d < 1440"
  shows "\<exists>r. addMinutes (Val (clock_string h m p)) d = Inr r \<and>
             addMinutes (Val r) (- d) = Inr (clock_string h m p)"
proof -
  from assms(3) have "0 \<le> minutes_of_day h m p + d" by simp
  from addMinutes_exact [OF assms(1,2) this assms(4)] assms(3) obtain h' m' p' where
    there: "addMinutes (Val (clock_string h m p)) d = Inr (clock_string h' m' p')"
    and v: "valid_clock h' m' p'" "\<not> (h' = 12 \<and> p' = ''AM'')"
    and t: "minutes_of_day h' m' p' = minutes_of_day h m p + d"
    by blast
  from addMinutes_clock_string [OF v, of "- d"] t
  have "addMinutes (Val (clock_string h' m' p')) (- d) = Inr (clock_render (minutes_of_day h m p))"
    by simp
  with clock_render_minutes_of_day [OF assms(1,2)] there show ?thesis
    by simp
qed

text \<open>
  So an early finish moves a later topic's start, and likewise its end, exactly
  \<open>timeSaved\<close> minutes earlier when the old time is a valid clock string outside the hour
  after midnight and the earlier time is still within the day.
\<close>

lemma reflow_start_exactly_earlier:
  assumes idx: "findIndex (\<lambda>t. topic_id t = topicId) plan = Some k"
    and saved: "js_sub (allocated_time (plan ! k)) (Num actualTime) = Num timeSaved" "0 < timeSaved"
    and r: "updateTopicTiming plan topicId actualTime = Inr plan'"
    and i: "k < i" "i < length plan"
    and st: "start_time (plan ! i) = Val (clock_string h m p)" "valid_clock h m p"
      "\<not> (h = 12 \<and> p = ''AM'')" "0 \<le> minutes_of_day h m p - timeSaved"
  shows "\<exists>h' m' p'. start_time (plan' ! i) = Val (clock_string h' m' p') \<and>
           valid_clock h' m' p' \<and>
           minutes_of_day h' m' p' = minutes_of_day h m p - timeSaved"
proof -
  let ?p = "plan[k := (plan ! k)\<lparr>allocated_time := Num actualTime, completed := True\<rparr>]"
  from r idx saved have "shift_loop (k + 1) (- timeSaved) ?p = Inr plan'"
    by (simp add: updateTopicTiming_def Let_def)
  from shift_loop_at [OF this, of i] i
  obtain s where s: "addMinutes (start_time (plan ! i)) (- timeSaved) = Inr s"
    "start_time (plan' ! i) = Val s"
    by auto
  have "minutes_of_day h m p < 1440"
    using st(2,3) by (rule minutes_of_day_range(2))
  with saved(2) have up: "minutes_of_day h m p + (- timeSaved) < 1440" by simp
  from st(4) have lo: "0 \<le> minutes_of_day h m p + (- timeSaved)" by simp
  from addMinutes_exact [OF st(2,3) lo up] s st(1) show ?thesis
    by auto
qed

lemma reflow_end_exactly_earlier:
  assumes idx: "findIndex (\<lambda>t. topic_id t = topicId) plan = Some k"
    and saved: "js_sub (allocated_time (plan ! k)) (Num actualTime) = Num timeSaved" "0 < timeSaved"
    and r: "updateTopicTiming plan topicId actualTime = Inr plan'"
    and i: "k < i" "i < length plan"
    and en: "end_time (plan ! i) = Val (clock_string h m p)" "valid_clock h m p"
      "\<not> (h = 12 \<and> p = ''AM'')" "0 \<le> minutes_of_day h m p - timeSaved"
  shows "\<exists>h' m' p'. end_time (plan' ! i) = Val (clock_string h' m' p') \<and>
           valid_clock h' m' p' \<and>
           minutes_of_day h' m' p' = minutes_of_day h m p - timeSaved"
proof -
  let ?p = "plan[k := (plan ! k)\<lparr>allocated_time := Num actualTime, completed := True\<rparr>]"
  from r idx saved have "shift_loop (k + 1) (- timeSaved) ?p = Inr plan'"
    by (simp add: updateTopicTiming_def Let_def)
  from shift_loop_at [OF this, of i] i
  obtain e where e: "addMinutes (end_time (plan ! i)) (- timeSaved) = Inr e"
    "end_time (plan' ! i) = Val e"
    by auto
  have "minutes_of_day h m p < 1440"
    using en(2,3) by (rule minutes_of_day_range(2))
  with saved(2) have up: "minutes_of_day h m p + (- timeSaved) < 1440" by simp
  from en(4) have lo: "0 \<le> minutes_of_day h m p + (- timeSaved)" by simp
  from addMinutes_exact [OF en(2,3) lo up] e en(1) show ?thesis
    by auto
qed

section \<open>Properties of the quiz evaluation\<close>

lemma mark_results:
  "snd (mark sel index score qs) =
     map (\<lambda>(i, q). \<lparr> a_question = question q, a_correct = correct q, a_selected = sel i,
                      isCorrect = (sel i = Some (correct q)) \<rparr>) (enumerate index qs)"
  by (induction qs arbitrary: index score) (simp_all add: Let_def case_prod_unfold)

lemma mark_score:
  "fst (mark sel index score qs) =
     score + length (filter (\<lambda>(i, q). sel i = Some (correct q)) (enumerate index qs))"
  by (induction qs arbitrary: index score) (simp_all add: Let_def case_prod_unfold)

lemma count_enumerate:
  "length (filter (\<lambda>(i, q). P i q) (enumerate 0 qs)) = card {i. i < length qs \<and> P i (qs ! i)}"
proof -
  have "length (filter (\<lambda>(i, q). P i q) (enumerate 0 qs)) =
        card {k. k < length (enumerate 0 qs) \<and> (\<lambda>(i, q). P i q) (enumerate 0 qs ! k)}"
    by (rule length_filter_conv_card)
  also have "{k. k < length (enumerate 0 qs) \<and> (\<lambda>(i, q). P i q) (enumerate 0 qs ! k)} =
        {i. i < length qs \<and> P i (qs ! i)}"
    by (auto simp: nth_enumerate_eq)
  finally show ?thesis .
qed

text \<open>
  C9. For a selected topic and any map of answers, the evaluation returns a score and one
  answer record per question; the score is the number of positions whose answer is the
  question's correct key; each record's \<open>isCorrect\<close> says whether the answer at its position
  is the correct key, so it is false for a position without an answer; and when some
  position has no answer the score is less than the number of questions.
\<close>

theorem evaluate_score:
  "\<exists>score results.
     evaluateAnswers (Some t) answers = Some (score, results) \<and>
     score = card {i. i < length (qna t) \<and> answers i = Some (correct (qna t ! i))} \<and>
     length results = length (qna t) \<and>
     (\<forall>i<length (qna t).
        isCorrect (results ! i) = (answers i = Some (correct (qna t ! i))) \<and>
        (answers i = None \<longrightarrow> \<not> isCorrect (results ! i))) \<and>
     ((\<exists>i<length (qna t). answers i = None) \<longrightarrow> score < length (qna t))"
proof -
  let ?Q = "length (qna t)"
  let ?good = "{i. i < ?Q \<and> answers i = Some (correct (qna t ! i))}"
  obtain score results where m: "mark answers 0 0 (qna t) = (score, results)"
    by (cases "mark answers 0 0 (qna t)")
  have ev: "evaluateAnswers (Some t) answers = Some (score, results)"
    by (simp add: evaluateAnswers_def m)
  from mark_score [of answers 0 0 "qna t"] m
  have sc: "score = card ?good"
    by (simp add: count_enumerate)
  from mark_results [of answers 0 0 "qna t"] m
  have rs: "results = map (\<lambda>(i, q). \<lparr> a_question = question q, a_correct = correct q,
        a_selected = answers i, isCorrect = (answers i = Some (correct q)) \<rparr>) (enumerate 0 (qna t))"
    by simp
  then have len: "length results = ?Q" by simp
  have each: "isCorrect (results ! i) = (answers i = Some (correct (qna t ! i)))" if "i < ?Q" for i
    using that by (simp add: rs nth_enumerate_eq)
  have less: "score < ?Q" if "\<exists>i<?Q. answers i = None"
  proof -
    from that obtain j where j: "j < ?Q" "answers j = None" by blast
    then have "?good \<subseteq> {..<?Q} - {j}" by auto
    then have "card ?good \<le> card ({..<?Q} - {j})"
      by (intro card_mono) simp_all
    also from j have "\<dots> < ?Q" by (simp add: card_Diff_singleton_if)
    finally show ?thesis by (simp add: sc)
  qed
  from ev sc len each less show ?thesis by auto
qed

theorem evaluate_score_witness:
  "length (qna quiz_topic) = 2 \<and> one_answer 1 = None \<and>
   map_option fst (evaluateAnswers (Some quiz_topic) one_answer) = Some 1 \<and>
   map_option (map isCorrect \<circ> snd) (evaluateAnswers (Some quiz_topic) one_answer) =
     Some [True, False]"
proof -
  have q: "length (qna quiz_topic) = 2"
    by (simp add: quiz_topic_def generateDefaultQnA_def)
  have n: "one_answer 1 = None" "one_answer 0 = Some (correct (qna quiz_topic ! 0))"
    by (simp_all add: one_answer_def quiz_topic_def generateDefaultQnA_def)
  from evaluate_score [of quiz_topic one_answer]
  obtain score results where r: "evaluateAnswers (Some quiz_topic) one_answer = Some (score, results)"
    and sc: "score = card {i. i < length (qna quiz_topic) \<and>
                one_answer i = Some (correct (qna quiz_topic ! i))}"
    and len: "length results = length (qna quiz_topic)"
    and each: "\<forall>i<length (qna quiz_topic).
        isCorrect (results ! i) = (one_answer i = Some (correct (qna quiz_topic ! i))) \<and>
        (one_answer i = None \<longrightarrow> \<not> isCorrect (results ! i))"
    by blast
  have "{i. i < length (qna quiz_topic) \<and> one_answer i = Some (correct (qna quiz_topic ! i))} = {0}"
    using n q by (auto simp: less_2_cases_iff)
  with sc have s1: "score = 1" by simp
  from each q n have "isCorrect (results ! 0)" "\<not> isCorrect (results ! 1)"
    by simp_all
  with len q have "map isCorrect results = [True, False]"
    by (cases results; cases "tl results") auto
  with q n r s1 show ?thesis by simp
qed

end
